theory Spec2Isabelle
  imports Main "HOL-Library.Word"
begin

section \<open>AgentPaymentVault: data model\<close>

text \<open>
  The contract \<open>AgentPaymentVault\<close> (Solidity 0.8.20) is embedded as pure functions on a
  record of its storage. A \<open>uint256\<close> is a 256-bit word, an \<open>address\<close> a 160-bit word
  with \<open>address(0) = 0\<close>. A Solidity \<open>mapping\<close> is a total function whose default is the
  zero value of its range. The dynamic array \<open>purchases\<close> is a list; its length (a storage
  slot that grows by one per committed purchase) and the purchase ids taken from it are
  read as natural numbers.

  Left out, as they never change what the functions below read: the events, the immutable
  \<open>usdc\<close> address, the \<open>nonReentrant\<close> lock (the token is opaque here and calls nothing
  back, so the lock is open at every entry), the view \<open>getCurrentDay\<close>, and the functions
  inherited from \<open>Ownable\<close> that hand over ownership.
\<close>

type_synonym uint256 = "256 word"
type_synonym address = "160 word"

record FundAccount =
  balance :: uint256
  dailySpendingLimit :: uint256
  perTransactionLimit :: uint256
  todaySpent :: uint256
  lastResetDay :: uint256
  authorizedBots :: "address \<Rightarrow> bool"

record Purchase =
  fund :: address
  bot :: address
  recipient :: address
  amount :: uint256
  fee :: uint256
  timestamp :: uint256
  metadata :: string

record vault =
  owner :: address
  platformFeeBps :: uint256
  treasury :: address
  fundAccounts :: "address \<Rightarrow> FundAccount"
  purchases :: "Purchase list"
  fundPurchaseIndices :: "address \<Rightarrow> nat list"

text \<open>
  What a transaction sees of its surroundings: the caller, the block time, and the
  outcome of the external calls to the USDC token, in call order. \<open>usdc_call1\<close> is the
  outcome of the first \<open>usdc.transfer\<close>/\<open>usdc.transferFrom\<close> of the transaction and
  \<open>usdc_call2\<close> of the second one (only \<open>purchaseOnBehalf\<close> makes two); \<open>False\<close> stands
  for a call that returned \<open>false\<close> or reverted. The token itself is an external
  collaborator and is not modelled.
\<close>

record env =
  msg_sender :: address
  block_timestamp :: uint256
  usdc_call1 :: bool
  usdc_call2 :: bool

text \<open>
  Every \<open>require\<close> of the contract is one constructor, named after its message:
  \<^item> \<open>InvalidUSDC\<close>: "Invalid USDC address"; \<open>InvalidTreasury\<close>: "Invalid treasury address";
  \<^item> \<open>InvalidAmount\<close>: "Amount must be greater than 0";
  \<^item> \<open>TransferFailed\<close>: "Transfer failed"; \<open>InsufficientBalance\<close>: "Insufficient balance";
  \<^item> \<open>InvalidBot\<close>: "Invalid bot address"; \<open>AlreadyAuthorized\<close>: "Bot already authorized";
    \<open>NotAuthorized\<close>: "Bot not authorized";
  \<^item> \<open>LimitOrderingViolation\<close>: "Per-tx limit exceeds daily limit";
  \<^item> \<open>InvalidRecipient\<close>: "Invalid recipient";
  \<^item> \<open>ExceedsPerTransactionLimit\<close>: "Exceeds per-transaction limit";
    \<open>ExceedsDailyLimit\<close>: "Exceeds daily limit";
  \<^item> \<open>RecipientTransferFailed\<close>: "Transfer to recipient failed";
    \<open>FeeTransferFailed\<close>: "Fee transfer failed";
  \<^item> \<open>FeeTooHigh\<close>: "Fee too high"; \<open>InvalidPurchaseId\<close>: "Invalid purchase ID";
  \<^item> \<open>Unauthorized\<close>: the \<open>onlyOwner\<close> modifier;
  \<^item> \<open>ArithmeticPanic\<close>: the overflow check that Solidity 0.8 puts on \<open>+\<close> and \<open>*\<close>.
  A failed transaction reverts: its result is \<open>Inl\<close> of the error and the storage stays
  the one before the call.
\<close>

datatype error =
    InvalidUSDC | InvalidTreasury | InvalidAmount | TransferFailed | InsufficientBalance
  | InvalidBot | AlreadyAuthorized | NotAuthorized | LimitOrderingViolation
  | InvalidRecipient | ExceedsPerTransactionLimit | ExceedsDailyLimit
  | RecipientTransferFailed | FeeTransferFailed | FeeTooHigh | InvalidPurchaseId
  | Unauthorized | ArithmeticPanic

definition MAX_PLATFORM_FEE_BPS :: uint256 where
  "MAX_PLATFORM_FEE_BPS = 1000"

definition BPS_DIVISOR :: uint256 where
  "BPS_DIVISOR = 10000"

definition one_day :: uint256 where
  \<comment> \<open>the literal \<open>1 days\<close>, in seconds\<close>
  "one_day = 86400"

subsection \<open>Checked arithmetic\<close>

text \<open>
  Solidity 0.8 checks \<open>+\<close> and \<open>*\<close> on \<open>uint256\<close>: a result above
  \<open>type(uint256).max\<close> reverts the transaction with a panic instead of wrapping.
  (The contract's two subtractions come after a \<open>require\<close> that excludes underflow.)
\<close>

definition UINT256_MAX :: nat where
  "UINT256_MAX = 2 ^ 256 - 1"

definition checked_add :: "uint256 \<Rightarrow> uint256 \<Rightarrow> error + uint256" where
  "checked_add a b =
     (if unat a + unat b \<le> UINT256_MAX then Inr (a + b) else Inl ArithmeticPanic)"

definition checked_mul :: "uint256 \<Rightarrow> uint256 \<Rightarrow> error + uint256" where
  "checked_mul a b =
     (if unat a * unat b \<le> UINT256_MAX then Inr (a * b) else Inl ArithmeticPanic)"

definition bind :: "error + 'a \<Rightarrow> ('a \<Rightarrow> error + 'b) \<Rightarrow> error + 'b" where
  \<comment> \<open>sequencing: the first error ends the transaction\<close>
  "bind m f = (case m of Inl e \<Rightarrow> Inl e | Inr x \<Rightarrow> f x)"

definition require :: "bool \<Rightarrow> error \<Rightarrow> error + unit" where
  "require c e = (if c then Inr () else Inl e)"

section \<open>The contract's functions\<close>

definition zero_account :: FundAccount where
  "zero_account = \<lparr>balance = 0, dailySpendingLimit = 0, perTransactionLimit = 0,
     todaySpent = 0, lastResetDay = 0, authorizedBots = (\<lambda>_. False)\<rparr>"

definition constructor :: "env \<Rightarrow> address \<Rightarrow> address \<Rightarrow> error + vault" where
  "constructor e usdc_addr treasury_addr =
     bind (require (usdc_addr \<noteq> 0) InvalidUSDC) (\<lambda>_.
     bind (require (treasury_addr \<noteq> 0) InvalidTreasury) (\<lambda>_.
     Inr \<lparr>owner = msg_sender e, platformFeeBps = 200, treasury = treasury_addr,
          fundAccounts = (\<lambda>_. zero_account), purchases = [],
          fundPurchaseIndices = (\<lambda>_. [])\<rparr>))"

definition set_account :: "address \<Rightarrow> FundAccount \<Rightarrow> vault \<Rightarrow> vault" where
  \<comment> \<open>a write through the storage reference \<open>account = fundAccounts[a]\<close>\<close>
  "set_account a acc s = s\<lparr>fundAccounts := (fundAccounts s)(a := acc)\<rparr>"

definition deposit :: "env \<Rightarrow> uint256 \<Rightarrow> vault \<Rightarrow> error + vault" where
  "deposit e amt s =
     bind (require (0 < amt) InvalidAmount) (\<lambda>_.
     let account = fundAccounts s (msg_sender e) in
     bind (require (usdc_call1 e) TransferFailed) (\<lambda>_.
     bind (checked_add (balance account) amt) (\<lambda>b.
     Inr (set_account (msg_sender e) (account\<lparr>balance := b\<rparr>) s))))"

definition withdraw :: "env \<Rightarrow> uint256 \<Rightarrow> vault \<Rightarrow> error + vault" where
  "withdraw e amt s =
     (let account = fundAccounts s (msg_sender e) in
      bind (require (0 < amt) InvalidAmount) (\<lambda>_.
      bind (require (amt \<le> balance account) InsufficientBalance) (\<lambda>_.
      let account = account\<lparr>balance := balance account - amt\<rparr> in
      bind (require (usdc_call1 e) TransferFailed) (\<lambda>_.
      Inr (set_account (msg_sender e) account s)))))"

definition authorizeBot :: "env \<Rightarrow> address \<Rightarrow> vault \<Rightarrow> error + vault" where
  "authorizeBot e b s =
     bind (require (b \<noteq> 0) InvalidBot) (\<lambda>_.
     let account = fundAccounts s (msg_sender e) in
     bind (require (\<not> authorizedBots account b) AlreadyAuthorized) (\<lambda>_.
     Inr (set_account (msg_sender e)
            (account\<lparr>authorizedBots := (authorizedBots account)(b := True)\<rparr>) s)))"

definition revokeBot :: "env \<Rightarrow> address \<Rightarrow> vault \<Rightarrow> error + vault" where
  "revokeBot e b s =
     (let account = fundAccounts s (msg_sender e) in
      bind (require (authorizedBots account b) NotAuthorized) (\<lambda>_.
      Inr (set_account (msg_sender e)
             (account\<lparr>authorizedBots := (authorizedBots account)(b := False)\<rparr>) s)))"

definition setLimits :: "env \<Rightarrow> uint256 \<Rightarrow> uint256 \<Rightarrow> vault \<Rightarrow> error + vault" where
  "setLimits e dailyLimit perTxLimit s =
     bind (require (perTxLimit \<le> dailyLimit \<or> dailyLimit = 0) LimitOrderingViolation) (\<lambda>_.
     let account = fundAccounts s (msg_sender e) in
     Inr (set_account (msg_sender e)
            (account\<lparr>dailySpendingLimit := dailyLimit, perTransactionLimit := perTxLimit\<rparr>) s))"

definition resetDailyLimitIfNeeded :: "env \<Rightarrow> FundAccount \<Rightarrow> FundAccount" where
  "resetDailyLimitIfNeeded e account =
     (let currentDay = block_timestamp e div one_day in
      if lastResetDay account < currentDay
      then account\<lparr>todaySpent := 0, lastResetDay := currentDay\<rparr>
      else account)"

definition purchaseOnBehalf ::
  "env \<Rightarrow> address \<Rightarrow> address \<Rightarrow> uint256 \<Rightarrow> string \<Rightarrow> vault \<Rightarrow> error + (nat \<times> vault)" where
  "purchaseOnBehalf e fnd rcp amt md s =
     bind (require (rcp \<noteq> 0) InvalidRecipient) (\<lambda>_.
     bind (require (0 < amt) InvalidAmount) (\<lambda>_.
     let account = fundAccounts s fnd in
     bind (require (authorizedBots account (msg_sender e)) NotAuthorized) (\<lambda>_.
     let account = resetDailyLimitIfNeeded e account in
     bind (if 0 < perTransactionLimit account
           then require (amt \<le> perTransactionLimit account) ExceedsPerTransactionLimit
           else Inr ()) (\<lambda>_.
     bind (if 0 < dailySpendingLimit account
           then bind (checked_add (todaySpent account) amt) (\<lambda>t.
                  require (t \<le> dailySpendingLimit account) ExceedsDailyLimit)
           else Inr ()) (\<lambda>_.
     bind (checked_mul amt (platformFeeBps s)) (\<lambda>p.
     let fee = p div BPS_DIVISOR in
     bind (checked_add amt fee) (\<lambda>totalAmount.
     bind (require (totalAmount \<le> balance account) InsufficientBalance) (\<lambda>_.
     let account = account\<lparr>balance := balance account - totalAmount\<rparr> in
     bind (checked_add (todaySpent account) amt) (\<lambda>t.
     let account = account\<lparr>todaySpent := t\<rparr> in
     bind (require (usdc_call1 e) RecipientTransferFailed) (\<lambda>_.
     bind (require (usdc_call2 e) FeeTransferFailed) (\<lambda>_.
     let purchaseId = length (purchases s) in
     Inr (purchaseId,
          (set_account fnd account s)
            \<lparr>purchases := purchases s @
               [\<lparr>fund = fnd, bot = msg_sender e, recipient = rcp, amount = amt, fee = fee,
                 timestamp = block_timestamp e, metadata = md\<rparr>],
             fundPurchaseIndices :=
               (fundPurchaseIndices s)(fnd := fundPurchaseIndices s fnd @ [purchaseId])\<rparr>
         ))))))))))))"

definition setPlatformFee :: "env \<Rightarrow> uint256 \<Rightarrow> vault \<Rightarrow> error + vault" where
  "setPlatformFee e newFeeBps s =
     bind (require (msg_sender e = owner s) Unauthorized) (\<lambda>_.
     bind (require (newFeeBps \<le> MAX_PLATFORM_FEE_BPS) FeeTooHigh) (\<lambda>_.
     Inr (s\<lparr>platformFeeBps := newFeeBps\<rparr>)))"

definition setTreasury :: "env \<Rightarrow> address \<Rightarrow> vault \<Rightarrow> error + vault" where
  "setTreasury e newTreasury s =
     bind (require (msg_sender e = owner s) Unauthorized) (\<lambda>_.
     bind (require (newTreasury \<noteq> 0) InvalidTreasury) (\<lambda>_.
     Inr (s\<lparr>treasury := newTreasury\<rparr>)))"

subsection \<open>Views\<close>

definition getFundAccount ::
  "vault \<Rightarrow> address \<Rightarrow> uint256 \<times> uint256 \<times> uint256 \<times> uint256 \<times> uint256" where
  "getFundAccount s fnd =
     (let account = fundAccounts s fnd in
      (balance account, dailySpendingLimit account, perTransactionLimit account,
       todaySpent account, lastResetDay account))"

definition isBotAuthorized :: "vault \<Rightarrow> address \<Rightarrow> address \<Rightarrow> bool" where
  "isBotAuthorized s fnd b = authorizedBots (fundAccounts s fnd) b"

definition getFundPurchases :: "vault \<Rightarrow> address \<Rightarrow> nat list" where
  "getFundPurchases s fnd = fundPurchaseIndices s fnd"

definition getTotalPurchases :: "vault \<Rightarrow> nat" where
  "getTotalPurchases s = length (purchases s)"

definition getPurchase :: "vault \<Rightarrow> uint256 \<Rightarrow> error + Purchase" where
  "getPurchase s purchaseId =
     bind (require (unat purchaseId < length (purchases s)) InvalidPurchaseId) (\<lambda>_.
     Inr (purchases s ! unat purchaseId))"

section \<open>Transactions and runs\<close>

text \<open>
  A transaction is a call of one external function under an environment. A reverted
  transaction leaves the storage as it was; \<open>run\<close> applies a sequence of transactions
  in order, as the chain does.
\<close>

datatype call =
    Deposit uint256
  | Withdraw uint256
  | AuthorizeBot address
  | RevokeBot address
  | SetLimits uint256 uint256
  | PurchaseOnBehalf address address uint256 string
  | SetPlatformFee uint256
  | SetTreasury address

fun dispatch :: "env \<Rightarrow> call \<Rightarrow> vault \<Rightarrow> error + vault" where
  "dispatch e (Deposit a) s = deposit e a s"
| "dispatch e (Withdraw a) s = withdraw e a s"
| "dispatch e (AuthorizeBot b) s = authorizeBot e b s"
| "dispatch e (RevokeBot b) s = revokeBot e b s"
| "dispatch e (SetLimits d p) s = setLimits e d p s"
| "dispatch e (PurchaseOnBehalf f r a m) s = map_sum id snd (purchaseOnBehalf e f r a m s)"
| "dispatch e (SetPlatformFee b) s = setPlatformFee e b s"
| "dispatch e (SetTreasury t) s = setTreasury e t s"

definition transact :: "vault \<Rightarrow> env \<times> call \<Rightarrow> vault" where
  "transact s tx = (case dispatch (fst tx) (snd tx) s of Inl _ \<Rightarrow> s | Inr s' \<Rightarrow> s')"

definition run :: "vault \<Rightarrow> (env \<times> call) list \<Rightarrow> vault" where
  "run s txs = foldl transact s txs"


definition succeeded :: "vault \<Rightarrow> env \<times> call \<Rightarrow> bool" where
  "succeeded s tx = (\<not> isl (dispatch (fst tx) (snd tx) s))"

section \<open>Vocabulary of the properties\<close>

text \<open>
  \<open>permitted\<close> collects, in natural numbers, the conditions under which
  \<open>purchaseOnBehalf\<close> goes through, and \<open>settled\<close> is the storage it leaves; that
  \<open>purchaseOnBehalf\<close> succeeds exactly when \<open>permitted\<close> holds, with \<open>settled\<close> as
  its result, is lemma \<open>purchase_Inr_iff\<close> below.
\<close>

definition permitted :: "env \<Rightarrow> address \<Rightarrow> address \<Rightarrow> uint256 \<Rightarrow> vault \<Rightarrow> bool" where
  "permitted e fnd rcp amt s =
     (let account = resetDailyLimitIfNeeded e (fundAccounts s fnd) in
      rcp \<noteq> 0 \<and> amt \<noteq> 0 \<and> authorizedBots (fundAccounts s fnd) (msg_sender e) \<and>
      (perTransactionLimit account = 0 \<or> amt \<le> perTransactionLimit account) \<and>
      (dailySpendingLimit account = 0 \<or>
         unat (todaySpent account) + unat amt \<le> unat (dailySpendingLimit account)) \<and>
      unat amt * unat (platformFeeBps s) \<le> UINT256_MAX \<and>
      unat amt + unat amt * unat (platformFeeBps s) div 10000 \<le> unat (balance account) \<and>
      unat (todaySpent account) + unat amt \<le> UINT256_MAX \<and>
      usdc_call1 e \<and> usdc_call2 e)"

definition settled :: "env \<Rightarrow> address \<Rightarrow> address \<Rightarrow> uint256 \<Rightarrow> string \<Rightarrow> vault \<Rightarrow> vault" where
  "settled e fnd rcp amt md s =
     (let account = resetDailyLimitIfNeeded e (fundAccounts s fnd);
          fee = amt * platformFeeBps s div BPS_DIVISOR in
      (set_account fnd (account\<lparr>balance := balance account - (amt + fee),
                                todaySpent := todaySpent account + amt\<rparr>) s)
        \<lparr>purchases := purchases s @
           [\<lparr>fund = fnd, bot = msg_sender e, recipient = rcp, amount = amt, fee = fee,
             timestamp = block_timestamp e, metadata = md\<rparr>],
         fundPurchaseIndices :=
           (fundPurchaseIndices s)(fnd := fundPurchaseIndices s fnd @ [length (purchases s)])\<rparr>)"

text \<open>
  Bookkeeping over a run, for the conservation and ledger properties: what one
  transaction contributes, judged on the storage it meets, summed along the run.
\<close>

fun total_over :: "(vault \<Rightarrow> env \<times> call \<Rightarrow> nat) \<Rightarrow> vault \<Rightarrow> (env \<times> call) list \<Rightarrow> nat" where
  "total_over q s [] = 0"
| "total_over q s (tx # txs) = q s tx + total_over q (transact s tx) txs"

definition deposit_of :: "address \<Rightarrow> vault \<Rightarrow> env \<times> call \<Rightarrow> nat" where
  \<comment> \<open>the amount of a successful deposit by fund \<open>F\<close>\<close>
  "deposit_of F s tx =
     (case snd tx of
        Deposit a \<Rightarrow> if msg_sender (fst tx) = F \<and> succeeded s tx then unat a else 0
      | _ \<Rightarrow> 0)"

definition withdrawal_of :: "address \<Rightarrow> vault \<Rightarrow> env \<times> call \<Rightarrow> nat" where
  \<comment> \<open>the amount of a successful withdrawal by fund \<open>F\<close>\<close>
  "withdrawal_of F s tx =
     (case snd tx of
        Withdraw a \<Rightarrow> if msg_sender (fst tx) = F \<and> succeeded s tx then unat a else 0
      | _ \<Rightarrow> 0)"

definition spend_of :: "address \<Rightarrow> vault \<Rightarrow> env \<times> call \<Rightarrow> nat" where
  \<comment> \<open>amount plus fee of a successful purchase on fund \<open>F\<close>, the fee at the rate in force\<close>
  "spend_of F s tx =
     (case snd tx of
        PurchaseOnBehalf f r a m \<Rightarrow>
          if f = F \<and> succeeded s tx
          then unat a + unat a * unat (platformFeeBps s) div 10000 else 0
      | _ \<Rightarrow> 0)"

definition executed :: "vault \<Rightarrow> env \<times> call \<Rightarrow> nat" where
  \<comment> \<open>1 for a successful purchase, 0 for every other transaction\<close>
  "executed s tx =
     (case snd tx of
        PurchaseOnBehalf f r a m \<Rightarrow> if succeeded s tx then 1 else 0
      | _ \<Rightarrow> 0)"

definition touches :: "address \<Rightarrow> env \<times> call \<Rightarrow> bool" where
  \<comment> \<open>the transaction addresses the account of fund \<open>F\<close>\<close>
  "touches F tx =
     (case snd tx of
        PurchaseOnBehalf f r a m \<Rightarrow> f = F
      | SetPlatformFee b \<Rightarrow> False
      | SetTreasury t \<Rightarrow> False
      | _ \<Rightarrow> msg_sender (fst tx) = F)"

definition manages_bot :: "address \<Rightarrow> address \<Rightarrow> env \<times> call \<Rightarrow> bool" where
  \<comment> \<open>the transaction is fund \<open>F\<close>'s own \<open>authorizeBot\<close> or \<open>revokeBot\<close> for bot \<open>b\<close>\<close>
  "manages_bot F b tx =
     (msg_sender (fst tx) = F \<and> (snd tx = AuthorizeBot b \<or> snd tx = RevokeBot b))"

text \<open>
  A concrete storage for the instances below, following the repository's test set-up:
  \<open>deployed_vault\<close> is the vault as deployed by owner 1 (token 8, treasury 7, fee
  200 bps), \<open>funded_vault\<close> the same after fund 2 has deposited 1000.00 USDC (6
  decimals) and authorized bot 4. \<open>owner_env\<close>, \<open>fund_env\<close> and \<open>bot_env\<close> are calls
  by the owner, by fund 2 and by bot 4 in which the token transfers succeed.
\<close>

definition deployed_vault :: vault where
  "deployed_vault =
     \<lparr>owner = 1, platformFeeBps = 200, treasury = 7, fundAccounts = (\<lambda>_. zero_account),
      purchases = [], fundPurchaseIndices = (\<lambda>_. [])\<rparr>"

definition owner_env :: env where
  "owner_env = \<lparr>msg_sender = 1, block_timestamp = 1700000000,
                 usdc_call1 = True, usdc_call2 = True\<rparr>"

definition funded_vault :: vault where
  "funded_vault =
     \<lparr>owner = 1, platformFeeBps = 200, treasury = 7,
      fundAccounts = (\<lambda>_. zero_account)
        (2 := \<lparr>balance = 1000000000, dailySpendingLimit = 0, perTransactionLimit = 0,
               todaySpent = 0, lastResetDay = 0,
               authorizedBots = (\<lambda>_. False)(4 := True)\<rparr>),
      purchases = [], fundPurchaseIndices = (\<lambda>_. [])\<rparr>"

definition bot_env :: env where
  "bot_env = \<lparr>msg_sender = 4, block_timestamp = 1700000000,
               usdc_call1 = True, usdc_call2 = True\<rparr>"

definition fund_env :: env where
  "fund_env = \<lparr>msg_sender = 2, block_timestamp = 1700000000,
                usdc_call1 = True, usdc_call2 = True\<rparr>"

definition limited_vault :: vault where
  \<comment> \<open>\<open>funded_vault\<close> after fund 2 has set a daily limit of 500.00 and a per-transaction
      limit of 150.00\<close>
  "limited_vault =
     set_account 2 ((fundAccounts funded_vault 2)
       \<lparr>dailySpendingLimit := 500000000, perTransactionLimit := 150000000\<rparr>) funded_vault"

definition after_first :: vault where
  \<comment> \<open>\<open>limited_vault\<close> after bot 4 has bought for 150.00 on behalf of fund 2\<close>
  "after_first = settled bot_env 2 6 150000000 ''svc'' limited_vault"

definition after_second :: vault where
  \<comment> \<open>and after the same purchase a second time\<close>
  "after_second = settled bot_env 2 6 150000000 ''svc'' after_first"

definition doubled_vault :: vault where
  \<comment> \<open>\<open>funded_vault\<close> with a per-transaction limit of 150.00 and a daily limit of twice
      that\<close>
  "doubled_vault =
     set_account 2 ((fundAccounts funded_vault 2)
       \<lparr>dailySpendingLimit := 300000000, perTransactionLimit := 150000000\<rparr>) funded_vault"

definition next_day_env :: env where
  \<comment> \<open>\<open>bot_env\<close> one day (86400 seconds) later\<close>
  "next_day_env = bot_env\<lparr>block_timestamp := 1700086400\<rparr>"

definition whale_vault :: vault where
  \<comment> \<open>the deployed vault after fund 2 has deposited \<open>2 ^ 255\<close> units, authorized bot 4
      and set a per-transaction limit of \<open>2 ^ 250\<close> and a daily limit of twice that\<close>
  "whale_vault =
     \<lparr>owner = 1, platformFeeBps = 200, treasury = 7,
      fundAccounts = (\<lambda>_. zero_account)
        (2 := \<lparr>balance = 2 ^ 255, dailySpendingLimit = 2 ^ 251, perTransactionLimit = 2 ^ 250,
               todaySpent = 0, lastResetDay = 0,
               authorizedBots = (\<lambda>_. False)(4 := True)\<rparr>),
      purchases = [], fundPurchaseIndices = (\<lambda>_. [])\<rparr>"

section \<open>Results of the single calls\<close>

lemma bind_Inr_iff: "bind m f = Inr y \<longleftrightarrow> (\<exists>x. m = Inr x \<and> f x = Inr y)"
  by (cases m) (simp_all add: bind_def)

lemma bind_Inl_iff: "bind m f = Inl e \<longleftrightarrow> m = Inl e \<or> (\<exists>x. m = Inr x \<and> f x = Inl e)"
  by (cases m) (simp_all add: bind_def)

lemma require_Inr_iff: "require c e = Inr u \<longleftrightarrow> c"
  by (simp add: require_def)

lemma require_Inl_iff: "require c e = Inl e' \<longleftrightarrow> \<not> c \<and> e' = e"
  by (auto simp add: require_def)

lemma checked_add_Inr_iff:
  "checked_add a b = Inr c \<longleftrightarrow> unat a + unat b \<le> UINT256_MAX \<and> c = a + b"
  by (auto simp add: checked_add_def)

lemma checked_mul_Inr_iff:
  "checked_mul a b = Inr c \<longleftrightarrow> unat a * unat b \<le> UINT256_MAX \<and> c = a * b"
  by (auto simp add: checked_mul_def)

lemma checked_add_Inl_iff:
  "checked_add a b = Inl e \<longleftrightarrow> \<not> unat a + unat b \<le> UINT256_MAX \<and> e = ArithmeticPanic"
  by (auto simp add: checked_add_def)

lemma checked_mul_Inl_iff:
  "checked_mul a b = Inl e \<longleftrightarrow> \<not> unat a * unat b \<le> UINT256_MAX \<and> e = ArithmeticPanic"
  by (auto simp add: checked_mul_def)

lemmas Inr_iffs = bind_Inr_iff require_Inr_iff checked_add_Inr_iff checked_mul_Inr_iff
lemmas Inl_iffs = bind_Inl_iff require_Inl_iff checked_add_Inl_iff checked_mul_Inl_iff

lemma le_unat_fits: "n \<le> unat (b::uint256) \<Longrightarrow> n \<le> UINT256_MAX"
  using unsigned_less [of b, where ?'a = nat] by (simp add: UINT256_MAX_def)

lemma unat_add_fits:
  "unat (a::uint256) + unat b \<le> UINT256_MAX \<Longrightarrow> unat (a + b) = unat a + unat b"
  by (simp add: unat_word_ariths UINT256_MAX_def)

lemma unat_mul_fits:
  "unat (a::uint256) * unat b \<le> UINT256_MAX \<Longrightarrow> unat (a * b) = unat a * unat b"
  by (simp add: unat_word_ariths UINT256_MAX_def)

lemma unat_BPS_DIVISOR: "unat BPS_DIVISOR = 10000"
  by (simp add: BPS_DIVISOR_def)

lemma unat_fee:
  "unat (a::uint256) * unat b \<le> UINT256_MAX \<Longrightarrow>
   unat (a * b div BPS_DIVISOR) = unat a * unat b div 10000"
  by (simp add: unat_div unat_mul_fits unat_BPS_DIVISOR)

lemma unat_total:
  assumes "unat (a::uint256) * unat b \<le> UINT256_MAX"
    and "unat a + unat a * unat b div 10000 \<le> unat (bal::uint256)"
  shows "unat (a + a * b div BPS_DIVISOR) = unat a + unat a * unat b div 10000"
proof -
  have "unat a + unat (a * b div BPS_DIVISOR) \<le> UINT256_MAX"
    using assms by (simp add: unat_fee le_unat_fits)
  then show ?thesis
    using assms(1) by (simp add: unat_add_fits unat_fee)
qed

lemma pos_word: "(0 < (a::uint256)) = (a \<noteq> 0)"
  by (simp add: word_neq_0_conv)

lemma reset_authorizedBots: "authorizedBots (resetDailyLimitIfNeeded e a) = authorizedBots a"
  by (simp add: resetDailyLimitIfNeeded_def Let_def)

lemma reset_balance: "balance (resetDailyLimitIfNeeded e a) = balance a"
  by (simp add: resetDailyLimitIfNeeded_def Let_def)

lemma reset_limits:
  "perTransactionLimit (resetDailyLimitIfNeeded e a) = perTransactionLimit a"
  "dailySpendingLimit (resetDailyLimitIfNeeded e a) = dailySpendingLimit a"
  by (simp_all add: resetDailyLimitIfNeeded_def Let_def)

lemma purchase_Inr_iff:
  "purchaseOnBehalf e fnd rcp amt md s = Inr (i, s') \<longleftrightarrow>
     permitted e fnd rcp amt s \<and> i = length (purchases s) \<and> s' = settled e fnd rcp amt md s"
  unfolding purchaseOnBehalf_def permitted_def settled_def
  apply (simp add: Inr_iffs Let_def pos_word reset_authorizedBots split: if_splits)
  apply (auto simp: word_le_nat_alt unat_add_fits unat_fee unat_total intro: le_unat_fits)
  done

lemma purchase_permitted:
  "permitted e fnd rcp amt s \<Longrightarrow>
   purchaseOnBehalf e fnd rcp amt md s = Inr (length (purchases s), settled e fnd rcp amt md s)"
  by (simp add: purchase_Inr_iff)

lemma purchase_not_permitted:
  "\<not> permitted e fnd rcp amt s \<Longrightarrow> isl (purchaseOnBehalf e fnd rcp amt md s)"
  by (cases "purchaseOnBehalf e fnd rcp amt md s") (auto simp: purchase_Inr_iff)

lemma deposit_Inr_iff:
  "deposit e amt s = Inr s' \<longleftrightarrow>
     amt \<noteq> 0 \<and> usdc_call1 e \<and>
     unat (balance (fundAccounts s (msg_sender e))) + unat amt \<le> UINT256_MAX \<and>
     s' = set_account (msg_sender e)
            ((fundAccounts s (msg_sender e))
               \<lparr>balance := balance (fundAccounts s (msg_sender e)) + amt\<rparr>) s"
  unfolding deposit_def by (auto simp add: Inr_iffs Let_def pos_word)

lemma withdraw_Inr_iff:
  "withdraw e amt s = Inr s' \<longleftrightarrow>
     amt \<noteq> 0 \<and> usdc_call1 e \<and> amt \<le> balance (fundAccounts s (msg_sender e)) \<and>
     s' = set_account (msg_sender e)
            ((fundAccounts s (msg_sender e))
               \<lparr>balance := balance (fundAccounts s (msg_sender e)) - amt\<rparr>) s"
  unfolding withdraw_def by (auto simp add: Inr_iffs Let_def pos_word)

lemma authorizeBot_Inr_iff:
  "authorizeBot e b s = Inr s' \<longleftrightarrow>
     b \<noteq> 0 \<and> \<not> authorizedBots (fundAccounts s (msg_sender e)) b \<and>
     s' = set_account (msg_sender e)
            ((fundAccounts s (msg_sender e))
               \<lparr>authorizedBots := (authorizedBots (fundAccounts s (msg_sender e)))(b := True)\<rparr>) s"
  unfolding authorizeBot_def by (auto simp add: Inr_iffs Let_def)

lemma revokeBot_Inr_iff:
  "revokeBot e b s = Inr s' \<longleftrightarrow>
     authorizedBots (fundAccounts s (msg_sender e)) b \<and>
     s' = set_account (msg_sender e)
            ((fundAccounts s (msg_sender e))
               \<lparr>authorizedBots := (authorizedBots (fundAccounts s (msg_sender e)))(b := False)\<rparr>) s"
  unfolding revokeBot_def by (auto simp add: Inr_iffs Let_def)

lemma setLimits_Inr_iff:
  "setLimits e d p s = Inr s' \<longleftrightarrow>
     (p \<le> d \<or> d = 0) \<and>
     s' = set_account (msg_sender e)
            ((fundAccounts s (msg_sender e))
               \<lparr>dailySpendingLimit := d, perTransactionLimit := p\<rparr>) s"
  unfolding setLimits_def by (auto simp add: Inr_iffs Let_def)

lemma setPlatformFee_Inr_iff:
  "setPlatformFee e b s = Inr s' \<longleftrightarrow>
     msg_sender e = owner s \<and> b \<le> MAX_PLATFORM_FEE_BPS \<and> s' = s\<lparr>platformFeeBps := b\<rparr>"
  unfolding setPlatformFee_def by (auto simp add: Inr_iffs)

lemma setTreasury_Inr_iff:
  "setTreasury e t s = Inr s' \<longleftrightarrow>
     msg_sender e = owner s \<and> t \<noteq> 0 \<and> s' = s\<lparr>treasury := t\<rparr>"
  unfolding setTreasury_def by (auto simp add: Inr_iffs)

lemmas call_Inr_iffs = deposit_Inr_iff withdraw_Inr_iff authorizeBot_Inr_iff revokeBot_Inr_iff
  setLimits_Inr_iff setPlatformFee_Inr_iff setTreasury_Inr_iff

section \<open>Conservation of the balance\<close>

lemma transact_Inl: "dispatch e c s = Inl err \<Longrightarrow> transact s (e, c) = s"
  by (simp add: transact_def)

lemma transact_Inr: "dispatch e c s = Inr s' \<Longrightarrow> transact s (e, c) = s'"
  by (simp add: transact_def)

lemma succeeded_Inl: "dispatch e c s = Inl err \<Longrightarrow> \<not> succeeded s (e, c)"
  by (simp add: succeeded_def)

lemma succeeded_Inr: "dispatch e c s = Inr s' \<Longrightarrow> succeeded s (e, c)"
  by (simp add: succeeded_def)

lemma dispatch_purchase_Inr_iff:
  "dispatch e (PurchaseOnBehalf f r a m) s = Inr s' \<longleftrightarrow>
     permitted e f r a s \<and> s' = settled e f r a m s"
proof (cases "permitted e f r a s")
  case True
  then show ?thesis
    by (auto simp add: purchase_permitted)
next
  case False
  from purchase_not_permitted [OF False, of m]
  obtain err where "purchaseOnBehalf e f r a m s = Inl err"
    by (cases "purchaseOnBehalf e f r a m s") auto
  with False show ?thesis by simp
qed

lemma run_Nil: "run s [] = s"
  by (simp add: run_def)

lemma run_Cons: "run s (tx # txs) = run (transact s tx) txs"
  by (simp add: run_def)

lemma settled_balance:
  assumes "permitted e f r a s"
  shows "unat (balance (fundAccounts (settled e f r a m s) f)) +
           (unat a + unat a * unat (platformFeeBps s) div 10000)
         = unat (balance (fundAccounts s f))"
proof -
  let ?acc = "resetDailyLimitIfNeeded e (fundAccounts s f)"
  let ?fee = "a * platformFeeBps s div BPS_DIVISOR"
  from assms have fits: "unat a * unat (platformFeeBps s) \<le> UINT256_MAX"
    and le: "unat a + unat a * unat (platformFeeBps s) div 10000 \<le> unat (balance ?acc)"
    by (simp_all add: permitted_def Let_def)
  have tot: "unat (a + ?fee) = unat a + unat a * unat (platformFeeBps s) div 10000"
    using fits le by (rule unat_total)
  then have "a + ?fee \<le> balance ?acc"
    using le by (simp add: word_le_nat_alt)
  then have "unat (balance ?acc - (a + ?fee)) = unat (balance ?acc) - unat (a + ?fee)"
    by (rule unat_sub)
  then show ?thesis
    using tot le by (simp add: settled_def set_account_def Let_def reset_balance)
qed

lemma settled_other:
  "g \<noteq> f \<Longrightarrow> fundAccounts (settled e f r a m s) g = fundAccounts s g"
  by (simp add: settled_def set_account_def Let_def)

lemma conservation_step:
  "unat (balance (fundAccounts (transact s tx) F)) + withdrawal_of F s tx + spend_of F s tx
   = unat (balance (fundAccounts s F)) + deposit_of F s tx"
proof (cases tx)
  case (Pair e c)
  show ?thesis
  proof (cases "dispatch e c s")
    case (Inl err)
    then show ?thesis
      using Pair by (auto simp add: transact_def succeeded_def withdrawal_of_def spend_of_def
          deposit_of_def split: call.splits)
  next
    case (Inr s')
    note ok = succeeded_Inr [OF Inr] and tr = transact_Inr [OF Inr]
    show ?thesis
    proof (cases c)
      case (Deposit a)
      with Inr show ?thesis
        using Pair ok tr
        by (auto simp add: deposit_Inr_iff withdrawal_of_def spend_of_def deposit_of_def
            set_account_def unat_add_fits)
    next
      case (Withdraw a)
      with Inr show ?thesis
        using Pair ok tr
        by (auto simp add: withdraw_Inr_iff withdrawal_of_def spend_of_def deposit_of_def
            set_account_def unat_sub word_le_nat_alt)
    next
      case (PurchaseOnBehalf f r a m)
      with Inr have "dispatch e (PurchaseOnBehalf f r a m) s = Inr s'"
        by simp
      then have p: "permitted e f r a s" and s': "s' = settled e f r a m s"
        by (simp_all only: dispatch_purchase_Inr_iff)
      show ?thesis
      proof (cases "f = F")
        case True
        then show ?thesis
          using Pair ok tr PurchaseOnBehalf s' settled_balance [OF p, of m]
          by (simp add: withdrawal_of_def spend_of_def deposit_of_def)
      next
        case False
        then show ?thesis
          using Pair ok tr PurchaseOnBehalf s'
          by (simp add: withdrawal_of_def spend_of_def deposit_of_def settled_other)
      qed
    qed (use Inr Pair tr in \<open>auto simp add: call_Inr_iffs withdrawal_of_def spend_of_def
          deposit_of_def set_account_def\<close>)
  qed
qed

text \<open>
  Claim C4 (conservation). Along every finite sequence of transactions, the balance of a
  fund \<open>F\<close> at the end is its balance at the start, plus the amounts of \<open>F\<close>'s
  successful deposits, minus the amounts of its successful withdrawals, minus amount plus
  fee of every successful purchase on \<open>F\<close>; reverted transactions, and transactions on
  other funds, contribute nothing. The subtractions are written as additions on the
  other side, in natural numbers.
\<close>

theorem conservation:
  "unat (balance (fundAccounts (run s txs) F))
     + total_over (withdrawal_of F) s txs + total_over (spend_of F) s txs
   = unat (balance (fundAccounts s F)) + total_over (deposit_of F) s txs"
proof (induction txs arbitrary: s)
  case Nil
  show ?case by (simp add: run_Nil)
next
  case (Cons tx txs)
  from Cons.IH [of "transact s tx"] conservation_step [of s tx F]
  show ?case by (simp add: run_Cons)
qed

lemma reset_flags:
  "resetDailyLimitIfNeeded (e\<lparr>usdc_call1 := x, usdc_call2 := y\<rparr>) = resetDailyLimitIfNeeded e"
  by (simp add: resetDailyLimitIfNeeded_def fun_eq_iff)

lemma purchase_Inl_recipient_transfer_iff:
  "purchaseOnBehalf e f r a md s = Inl RecipientTransferFailed \<longleftrightarrow>
     permitted (e\<lparr>usdc_call1 := True, usdc_call2 := True\<rparr>) f r a s \<and> \<not> usdc_call1 e"
  unfolding purchaseOnBehalf_def permitted_def
  apply (simp add: Inl_iffs Inr_iffs Let_def pos_word reset_authorizedBots reset_flags
      split: if_splits)
  apply (auto simp: word_le_nat_alt unat_add_fits unat_fee unat_total intro: le_unat_fits)
  done

lemma purchase_Inl_fee_transfer_iff:
  "purchaseOnBehalf e f r a md s = Inl FeeTransferFailed \<longleftrightarrow>
     permitted (e\<lparr>usdc_call1 := True, usdc_call2 := True\<rparr>) f r a s \<and>
     usdc_call1 e \<and> \<not> usdc_call2 e"
  unfolding purchaseOnBehalf_def permitted_def
  apply (simp add: Inl_iffs Inr_iffs Let_def pos_word reset_authorizedBots reset_flags
      split: if_splits)
  apply (auto simp: word_le_nat_alt unat_add_fits unat_fee unat_total intro: le_unat_fits)
  done

lemma purchase_Inl_per_tx_iff:
  "purchaseOnBehalf e f r a md s = Inl ExceedsPerTransactionLimit \<longleftrightarrow>
     r \<noteq> 0 \<and> a \<noteq> 0 \<and> authorizedBots (fundAccounts s f) (msg_sender e) \<and>
     perTransactionLimit (fundAccounts s f) \<noteq> 0 \<and> perTransactionLimit (fundAccounts s f) < a"
  unfolding purchaseOnBehalf_def
  by (auto simp add: Inl_iffs Inr_iffs Let_def pos_word reset_limits reset_authorizedBots not_le
      split: if_splits)

lemma purchase_Inl_daily_iff:
  "purchaseOnBehalf e f r a md s = Inl ExceedsDailyLimit \<longleftrightarrow>
     (let account = resetDailyLimitIfNeeded e (fundAccounts s f) in
      r \<noteq> 0 \<and> a \<noteq> 0 \<and> authorizedBots (fundAccounts s f) (msg_sender e) \<and>
      (perTransactionLimit account = 0 \<or> a \<le> perTransactionLimit account) \<and>
      dailySpendingLimit account \<noteq> 0 \<and>
      unat (todaySpent account) + unat a \<le> UINT256_MAX \<and>
      unat (dailySpendingLimit account) < unat (todaySpent account) + unat a)"
  unfolding purchaseOnBehalf_def
  by (auto simp add: Inl_iffs Inr_iffs Let_def pos_word reset_limits reset_authorizedBots
      word_le_nat_alt unat_add_fits not_le split: if_splits)

section \<open>Properties of a single purchase\<close>

lemma settled_fee:
  "unat amt * unat (platformFeeBps s) \<le> UINT256_MAX \<Longrightarrow>
   unat (fee (purchases (settled e f r amt md s) ! length (purchases s)))
     = unat amt * unat (platformFeeBps s) div 10000"
  by (simp add: settled_def Let_def unat_fee)

lemma settled_record:
  "purchases (settled e f r amt md s) ! length (purchases s) =
     \<lparr>fund = f, bot = msg_sender e, recipient = r, amount = amt,
      fee = amt * platformFeeBps s div BPS_DIVISOR, timestamp = block_timestamp e,
      metadata = md\<rparr>"
  by (simp add: settled_def Let_def)

text \<open>
  Claim C2 (fee exactness), as amended. Whenever \<open>purchaseOnBehalf\<close> succeeds, the fee
  it records and debits is exactly \<open>floor(amount * platformFeeBps / 10000)\<close>, by integer
  floor division with no rounding adjustment, and the fund's balance goes down by amount
  plus that fee. (A product \<open>amount * platformFeeBps\<close> above \<open>type(uint256).max\<close> reverts
  the call, so no fee is charged then.) At 200 bps an amount of 100_000000 gives the fee
  2_000000 and an amount of 33_330000 gives the fee 666_600: the figure 666 of the
  stated example is not what the floor division yields.
\<close>

theorem fee_exact:
  assumes "purchaseOnBehalf e f r amt md s = Inr (i, s')"
  shows "amount (purchases s' ! i) = amt \<and>
         unat (fee (purchases s' ! i)) = unat amt * unat (platformFeeBps s) div 10000 \<and>
         unat (balance (fundAccounts s' f)) + (unat amt + unat (fee (purchases s' ! i)))
           = unat (balance (fundAccounts s f)) \<and>
         (platformFeeBps s = 200 \<and> amt = 100000000 \<longrightarrow> fee (purchases s' ! i) = 2000000) \<and>
         (platformFeeBps s = 200 \<and> amt = 33330000 \<longrightarrow> fee (purchases s' ! i) = 666600)"
proof -
  from assms have p: "permitted e f r amt s" and i: "i = length (purchases s)"
    and s': "s' = settled e f r amt md s"
    by (simp_all add: purchase_Inr_iff)
  from p have fits: "unat amt * unat (platformFeeBps s) \<le> UINT256_MAX"
    by (simp add: permitted_def Let_def)
  have rec: "purchases s' ! i =
     \<lparr>fund = f, bot = msg_sender e, recipient = r, amount = amt,
      fee = amt * platformFeeBps s div BPS_DIVISOR, timestamp = block_timestamp e,
      metadata = md\<rparr>"
    unfolding i s' by (rule settled_record)
  have f: "unat (fee (purchases s' ! i)) = unat amt * unat (platformFeeBps s) div 10000"
    unfolding i s' using fits by (rule settled_fee)
  have b: "unat (balance (fundAccounts s' f)) + (unat amt + unat (fee (purchases s' ! i)))
           = unat (balance (fundAccounts s f))"
    unfolding f unfolding s' using p by (rule settled_balance)
  have ex1: "platformFeeBps s = 200 \<and> amt = 100000000 \<longrightarrow> fee (purchases s' ! i) = 2000000"
    by (simp add: rec BPS_DIVISOR_def)
  have ex2: "platformFeeBps s = 200 \<and> amt = 33330000 \<longrightarrow> fee (purchases s' ! i) = 666600"
    by (simp add: rec BPS_DIVISOR_def)
  from rec f b ex1 ex2 show ?thesis by simp
qed

lemmas fixture_defs = funded_vault_def bot_env_def fund_env_def zero_account_def
  permitted_def settled_def resetDailyLimitIfNeeded_def set_account_def
  UINT256_MAX_def BPS_DIVISOR_def one_day_def Let_def

lemma permitted_fixture_33: "permitted bot_env 2 6 33330000 funded_vault"
  by (simp add: fixture_defs)

lemma permitted_fixture_100: "permitted bot_env 2 6 100000000 funded_vault"
  by (simp add: fixture_defs)

text \<open>
  The instance of the test "Should handle fee calculation with no rounding errors":
  bot 4 buys for 33.33 USDC on behalf of fund 2.
\<close>

theorem fee_exact_witness:
  "purchaseOnBehalf bot_env 2 6 33330000 ''Test'' funded_vault
     = Inr (0, settled bot_env 2 6 33330000 ''Test'' funded_vault) \<and>
   platformFeeBps funded_vault = 200 \<and>
   fee (purchases (settled bot_env 2 6 33330000 ''Test'' funded_vault) ! 0) = 666600 \<and>
   unat (balance (fundAccounts (settled bot_env 2 6 33330000 ''Test'' funded_vault) 2))
     + (33330000 + 666600) = 1000000000 \<and>
   purchaseOnBehalf bot_env 2 6 100000000 ''Test'' funded_vault
     = Inr (0, settled bot_env 2 6 100000000 ''Test'' funded_vault) \<and>
   fee (purchases (settled bot_env 2 6 100000000 ''Test'' funded_vault) ! 0) = 2000000"
proof -
  have run: "purchaseOnBehalf bot_env 2 6 33330000 ''Test'' funded_vault
     = Inr (0, settled bot_env 2 6 33330000 ''Test'' funded_vault)"
    using purchase_permitted [OF permitted_fixture_33, of "''Test''"]
    by (simp add: funded_vault_def)
  have run': "purchaseOnBehalf bot_env 2 6 100000000 ''Test'' funded_vault
     = Inr (0, settled bot_env 2 6 100000000 ''Test'' funded_vault)"
    using purchase_permitted [OF permitted_fixture_100, of "''Test''"]
    by (simp add: funded_vault_def)
  have bps: "platformFeeBps funded_vault = 200"
    by (simp add: funded_vault_def)
  from fee_exact [OF run] fee_exact [OF run'] bps run run' show ?thesis
    by (simp add: funded_vault_def)
qed

text \<open>
  The figure first given for this example fails: the same purchase does not charge 666.
\<close>

theorem fee_example_counterexample:
  "purchaseOnBehalf bot_env 2 6 33330000 ''Test'' funded_vault
     = Inr (0, settled bot_env 2 6 33330000 ''Test'' funded_vault) \<and>
   platformFeeBps funded_vault = 200 \<and>
   fee (purchases (settled bot_env 2 6 33330000 ''Test'' funded_vault) ! 0) \<noteq> 666"
proof -
  have "purchaseOnBehalf bot_env 2 6 33330000 ''Test'' funded_vault
     = Inr (0, settled bot_env 2 6 33330000 ''Test'' funded_vault)"
    using purchase_permitted [OF permitted_fixture_33, of "''Test''"]
    by (simp add: funded_vault_def)
  moreover have "fee (purchases (settled bot_env 2 6 33330000 ''Test'' funded_vault) ! 0) = 666600"
    by (simp add: fixture_defs)
  ultimately show ?thesis by (simp add: funded_vault_def)
qed

text \<open>
  Claim C3 (rollback on transfer failure). If the transfer of the principal to the
  recipient or the transfer of the fee to the treasury fails, \<open>purchaseOnBehalf\<close>
  returns an error, and the transaction leaves the storage exactly as it was: the fund's
  balance and \<open>todaySpent\<close>, the ledger and the fund's index of purchases are those
  before the call. When everything else permits the purchase, the error is the failed
  transfer's own.
\<close>

theorem transfer_failure_rolls_back:
  assumes "\<not> usdc_call1 e \<or> \<not> usdc_call2 e"
  shows "(\<exists>err. purchaseOnBehalf e f r amt md s = Inl err) \<and>
         transact s (e, PurchaseOnBehalf f r amt md) = s \<and>
         balance (fundAccounts (transact s (e, PurchaseOnBehalf f r amt md)) f)
           = balance (fundAccounts s f) \<and>
         todaySpent (fundAccounts (transact s (e, PurchaseOnBehalf f r amt md)) f)
           = todaySpent (fundAccounts s f) \<and>
         purchases (transact s (e, PurchaseOnBehalf f r amt md)) = purchases s \<and>
         fundPurchaseIndices (transact s (e, PurchaseOnBehalf f r amt md)) f
           = fundPurchaseIndices s f \<and>
         (permitted (e\<lparr>usdc_call1 := True, usdc_call2 := True\<rparr>) f r amt s \<longrightarrow>
            purchaseOnBehalf e f r amt md s =
              Inl (if usdc_call1 e then FeeTransferFailed else RecipientTransferFailed))"
proof -
  from assms have "\<not> permitted e f r amt s"
    by (auto simp add: permitted_def Let_def)
  then have "isl (purchaseOnBehalf e f r amt md s)"
    by (rule purchase_not_permitted)
  then obtain err where err: "purchaseOnBehalf e f r amt md s = Inl err"
    by (cases "purchaseOnBehalf e f r amt md s") auto
  then have same: "transact s (e, PurchaseOnBehalf f r amt md) = s"
    by (simp add: transact_def)
  have "purchaseOnBehalf e f r amt md s =
          Inl (if usdc_call1 e then FeeTransferFailed else RecipientTransferFailed)"
    if "permitted (e\<lparr>usdc_call1 := True, usdc_call2 := True\<rparr>) f r amt s"
    using that assms
    by (auto simp add: purchase_Inl_recipient_transfer_iff purchase_Inl_fee_transfer_iff)
  with err same show ?thesis by simp
qed

text \<open>
  An instance: everything permits the purchase of 150.00, the transfer to the recipient
  goes through and the fee transfer fails.
\<close>

theorem transfer_failure_rolls_back_witness:
  "\<not> usdc_call2 (bot_env\<lparr>usdc_call2 := False\<rparr>) \<and>
   permitted bot_env 2 6 150000000 funded_vault \<and>
   purchaseOnBehalf (bot_env\<lparr>usdc_call2 := False\<rparr>) 2 6 150000000 ''svc'' funded_vault
     = Inl FeeTransferFailed \<and>
   transact funded_vault (bot_env\<lparr>usdc_call2 := False\<rparr>, PurchaseOnBehalf 2 6 150000000 ''svc'')
     = funded_vault"
proof -
  have h: "\<not> usdc_call1 (bot_env\<lparr>usdc_call2 := False\<rparr>) \<or> \<not> usdc_call2 (bot_env\<lparr>usdc_call2 := False\<rparr>)"
    by simp
  have p: "permitted bot_env 2 6 150000000 funded_vault"
    by (simp add: fixture_defs)
  have e: "bot_env\<lparr>usdc_call2 := False, usdc_call1 := True, usdc_call2 := True\<rparr> = bot_env"
    by (simp add: bot_env_def)
  from transfer_failure_rolls_back [OF h, of 2 6 150000000 "''svc''" funded_vault] p e
  show ?thesis by (simp add: bot_env_def)
qed

text \<open>
  Claim C6 (limit boundary). With a per-transaction limit \<open>L \<noteq> 0\<close>, a non-null
  recipient and an authorized bot, a purchase of exactly \<open>L\<close> never fails with
  \<open>ExceedsPerTransactionLimit\<close>, and a purchase of \<open>L + 1\<close> fails with
  \<open>ExceedsPerTransactionLimit\<close> whatever the daily limit and the balance are, the
  per-transaction check coming first.
\<close>

theorem per_transaction_limit_boundary:
  assumes "perTransactionLimit (fundAccounts s f) = L" and "L \<noteq> 0"
    and "r \<noteq> 0" and "authorizedBots (fundAccounts s f) (msg_sender e)"
  shows "purchaseOnBehalf e f r L md s \<noteq> Inl ExceedsPerTransactionLimit \<and>
         (unat amt = unat L + 1 \<longrightarrow>
            purchaseOnBehalf e f r amt md s = Inl ExceedsPerTransactionLimit)"
proof -
  have "purchaseOnBehalf e f r L md s \<noteq> Inl ExceedsPerTransactionLimit"
    using assms(1) by (simp add: purchase_Inl_per_tx_iff)
  moreover have "purchaseOnBehalf e f r amt md s = Inl ExceedsPerTransactionLimit"
    if "unat amt = unat L + 1"
  proof -
    from that have "L < amt" by (simp add: word_less_nat_alt)
    moreover from that have "amt \<noteq> 0" by auto
    ultimately show ?thesis
      using assms by (simp add: purchase_Inl_per_tx_iff)
  qed
  ultimately show ?thesis by simp
qed

lemma limited_vault_reachable:
  "setLimits fund_env 500000000 150000000 funded_vault = Inr limited_vault"
  by (simp add: setLimits_Inr_iff limited_vault_def fund_env_def)

text \<open>
  An instance with the limit at 150.00: 150_000000 passes the check, 150_000001 does not.
\<close>

theorem per_transaction_limit_boundary_witness:
  "perTransactionLimit (fundAccounts limited_vault 2) = 150000000 \<and>
   (150000000 :: uint256) \<noteq> 0 \<and> (6 :: address) \<noteq> 0 \<and>
   authorizedBots (fundAccounts limited_vault 2) (msg_sender bot_env) \<and>
   unat (150000001 :: uint256) = unat (150000000 :: uint256) + 1 \<and>
   purchaseOnBehalf bot_env 2 6 150000000 ''svc'' limited_vault
     \<noteq> Inl ExceedsPerTransactionLimit \<and>
   purchaseOnBehalf bot_env 2 6 150000001 ''svc'' limited_vault
     = Inl ExceedsPerTransactionLimit"
proof -
  have a: "perTransactionLimit (fundAccounts limited_vault 2) = 150000000"
    by (simp add: limited_vault_def fixture_defs)
  have b: "authorizedBots (fundAccounts limited_vault 2) (msg_sender bot_env)"
    by (simp add: limited_vault_def fixture_defs)
  have c: "(150000000 :: uint256) \<noteq> 0" and d: "(6 :: address) \<noteq> 0" by simp_all
  have e: "unat (150000001 :: uint256) = unat (150000000 :: uint256) + 1" by simp
  from per_transaction_limit_boundary [OF a c d b, of "''svc''" 150000001] a b e
  show ?thesis by simp
qed

text \<open>
  Claim C9 (the recipient is unconstrained). Apart from being non-null, the recipient
  plays no part in the outcome of \<open>purchaseOnBehalf\<close>: for two non-null recipients
  \<open>r\<close> and \<open>r'\<close> (in particular \<open>r\<close> the calling bot itself, or the fund) the call
  fails with the same error, or succeeds with the same purchase id, the same accounts and
  the same ledger entry up to the recorded recipient. So an authorized bot can name
  itself as recipient.
\<close>

theorem recipient_unconstrained:
  assumes "r \<noteq> 0" and "r' \<noteq> 0"
  shows "(purchaseOnBehalf e f r amt md s = Inl err \<longleftrightarrow>
            purchaseOnBehalf e f r' amt md s = Inl err) \<and>
         (purchaseOnBehalf e f r' amt md s = Inr (i, s') \<longrightarrow>
            (\<exists>s''. purchaseOnBehalf e f r amt md s = Inr (i, s'') \<and>
                    fundAccounts s'' = fundAccounts s' \<and>
                    fundPurchaseIndices s'' = fundPurchaseIndices s' \<and>
                    purchases s'' = purchases s @ [(purchases s' ! i)\<lparr>recipient := r\<rparr>]))"
proof -
  have errs: "purchaseOnBehalf e f r amt md s = Inl err \<longleftrightarrow>
            purchaseOnBehalf e f r' amt md s = Inl err"
    unfolding purchaseOnBehalf_def using assms
    by (simp add: Inl_iffs Inr_iffs Let_def split: if_splits)
  have perm: "permitted e f r amt s = permitted e f r' amt s"
    using assms by (simp add: permitted_def Let_def)
  have ok: "\<exists>s''. purchaseOnBehalf e f r amt md s = Inr (i, s'') \<and>
                    fundAccounts s'' = fundAccounts s' \<and>
                    fundPurchaseIndices s'' = fundPurchaseIndices s' \<and>
                    purchases s'' = purchases s @ [(purchases s' ! i)\<lparr>recipient := r\<rparr>]"
    if "purchaseOnBehalf e f r' amt md s = Inr (i, s')"
  proof -
    from that have p: "permitted e f r' amt s" and i: "i = length (purchases s)"
      and s': "s' = settled e f r' amt md s"
      by (simp_all add: purchase_Inr_iff)
    from p perm have "purchaseOnBehalf e f r amt md s = Inr (i, settled e f r amt md s)"
      by (simp add: purchase_permitted i)
    moreover have "fundAccounts (settled e f r amt md s) = fundAccounts s'"
      and "fundPurchaseIndices (settled e f r amt md s) = fundPurchaseIndices s'"
      and "purchases (settled e f r amt md s) = purchases s @ [(purchases s' ! i)\<lparr>recipient := r\<rparr>]"
      by (simp_all add: s' i settled_def set_account_def Let_def)
    ultimately show ?thesis by blast
  qed
  from errs ok show ?thesis by blast
qed

text \<open>
  An instance: bot 4 buys for 150.00 with itself as recipient, as it could with
  recipient 6.
\<close>

theorem recipient_unconstrained_witness:
  "(4 :: address) \<noteq> 0 \<and> (6 :: address) \<noteq> 0 \<and> msg_sender bot_env = 4 \<and>
   purchaseOnBehalf bot_env 2 6 150000000 ''svc'' funded_vault
     = Inr (0, settled bot_env 2 6 150000000 ''svc'' funded_vault) \<and>
   purchaseOnBehalf bot_env 2 4 150000000 ''svc'' funded_vault
     = Inr (0, settled bot_env 2 4 150000000 ''svc'' funded_vault) \<and>
   recipient (purchases (settled bot_env 2 4 150000000 ''svc'' funded_vault) ! 0) = 4 \<and>
   balance (fundAccounts (settled bot_env 2 4 150000000 ''svc'' funded_vault) 2) = 847000000"
proof -
  have nz: "(4 :: address) \<noteq> 0" "(6 :: address) \<noteq> 0" by simp_all
  have p: "permitted bot_env 2 6 150000000 funded_vault"
    by (simp add: fixture_defs)
  have other: "purchaseOnBehalf bot_env 2 6 150000000 ''svc'' funded_vault
     = Inr (0, settled bot_env 2 6 150000000 ''svc'' funded_vault)"
    using purchase_permitted [OF p, of "''svc''"] by (simp add: funded_vault_def)
  from recipient_unconstrained [OF nz, of bot_env 2 150000000 "''svc''" funded_vault _ 0
      "settled bot_env 2 6 150000000 ''svc'' funded_vault"] other
  obtain s'' where self: "purchaseOnBehalf bot_env 2 4 150000000 ''svc'' funded_vault = Inr (0, s'')"
    and accs: "fundAccounts s'' = fundAccounts (settled bot_env 2 6 150000000 ''svc'' funded_vault)"
    and led: "purchases s'' = purchases funded_vault @
       [(purchases (settled bot_env 2 6 150000000 ''svc'' funded_vault) ! 0)\<lparr>recipient := 4\<rparr>]"
    by blast
  from self have s'': "s'' = settled bot_env 2 4 150000000 ''svc'' funded_vault"
    by (simp add: purchase_Inr_iff)
  have "recipient (purchases s'' ! 0) = 4"
    unfolding led by (simp add: funded_vault_def)
  moreover have "balance (fundAccounts s'' 2) = 847000000"
    unfolding accs by (simp add: fixture_defs)
  ultimately show ?thesis
    using self other nz unfolding s'' by (simp add: bot_env_def)
qed


section \<open>Properties of runs\<close>

lemma purchase_map_sum_Inr_iff:
  "map_sum id snd (purchaseOnBehalf e f r a m s) = Inr s' \<longleftrightarrow>
     permitted e f r a s \<and> s' = settled e f r a m s"
  using dispatch_purchase_Inr_iff [of e f r a m s s'] by simp

lemma frame_accounts_step:
  assumes "\<not> touches F tx"
  shows "fundAccounts (transact s tx) F = fundAccounts s F \<and>
         fundPurchaseIndices (transact s tx) F = fundPurchaseIndices s F"
proof (cases tx)
  case (Pair e c)
  show ?thesis
  proof (cases "dispatch e c s")
    case (Inl err)
    then show ?thesis using Pair by (simp add: transact_def)
  next
    case (Inr s')
    then have "transact s tx = s'" using Pair by (simp add: transact_def)
    moreover have "fundAccounts s' F = fundAccounts s F \<and>
         fundPurchaseIndices s' F = fundPurchaseIndices s F"
      using Inr assms Pair
      by (cases c) (auto simp add: touches_def call_Inr_iffs purchase_map_sum_Inr_iff
          set_account_def settled_def Let_def)
    ultimately show ?thesis by simp
  qed
qed

lemma frame_accounts_run:
  "\<forall>tx \<in> set txs. \<not> touches F tx \<Longrightarrow>
   fundAccounts (run s txs) F = fundAccounts s F \<and>
   fundPurchaseIndices (run s txs) F = fundPurchaseIndices s F"
proof (induction txs arbitrary: s)
  case Nil
  show ?case by (simp add: run_Nil)
next
  case (Cons tx txs)
  then have "\<not> touches F tx" and rest: "\<forall>tx \<in> set txs. \<not> touches F tx" by simp_all
  from frame_accounts_step [OF this(1), of s] Cons.IH [OF rest, of "transact s tx"]
  show ?case by (simp add: run_Cons)
qed

text \<open>
  Claim C10 (queries on an unknown fund). The views have no \<open>require\<close>: they return a
  value for every fund. For a fund \<open>F\<close> that no transaction since deployment has
  addressed, \<open>getFundAccount\<close> returns balance, both limits, \<open>todaySpent\<close> and
  \<open>lastResetDay\<close> all 0, \<open>isBotAuthorized\<close> is false for every bot, and
  \<open>getFundPurchases\<close> is empty.
\<close>

theorem unknown_fund_queries:
  assumes "constructor e0 usdc_addr treasury_addr = Inr s0"
    and "\<forall>tx \<in> set txs. \<not> touches F tx"
  shows "getFundAccount (run s0 txs) F = (0, 0, 0, 0, 0) \<and>
         (\<forall>b. \<not> isBotAuthorized (run s0 txs) F b) \<and>
         getFundPurchases (run s0 txs) F = []"
proof -
  from assms(1) have s0: "fundAccounts s0 F = zero_account" "fundPurchaseIndices s0 F = []"
    by (auto simp add: constructor_def Inr_iffs)
  from frame_accounts_run [OF assms(2), of s0] s0
  show ?thesis
    by (simp add: getFundAccount_def isBotAuthorized_def getFundPurchases_def zero_account_def)
qed

lemma authorized_step:
  assumes "\<not> manages_bot F b tx"
  shows "authorizedBots (fundAccounts (transact s tx) F) b = authorizedBots (fundAccounts s F) b"
proof (cases tx)
  case (Pair e c)
  show ?thesis
  proof (cases "dispatch e c s")
    case (Inl err)
    then show ?thesis using Pair by (simp add: transact_def)
  next
    case (Inr s')
    then have "transact s tx = s'" using Pair by (simp add: transact_def)
    moreover have "authorizedBots (fundAccounts s' F) b = authorizedBots (fundAccounts s F) b"
      using Inr assms Pair
      by (cases c) (auto simp add: manages_bot_def call_Inr_iffs purchase_map_sum_Inr_iff
          set_account_def settled_def Let_def reset_authorizedBots)
    ultimately show ?thesis by simp
  qed
qed

lemma authorized_run:
  assumes "\<forall>tx \<in> set txs. \<not> manages_bot F b tx"
  shows "authorizedBots (fundAccounts (run s txs) F) b = authorizedBots (fundAccounts s F) b"
  using assms
proof (induction txs arbitrary: s)
  case Nil
  show ?case by (simp add: run_Nil)
next
  case (Cons tx txs)
  then have "\<not> manages_bot F b tx" and rest: "\<forall>tx \<in> set txs. \<not> manages_bot F b tx"
    by simp_all
  from authorized_step [OF this(1), of s] Cons.IH [OF rest, of "transact s tx"]
  show ?case by (simp add: run_Cons)
qed

text \<open>
  Claim C7 (isolation of authorization). A call of any function by a fund \<open>F1\<close> other
  than \<open>F2\<close>, \<open>authorizeBot\<close> included, leaves \<open>isBotAuthorized F2 b\<close> as it was; so
  does a purchase on behalf of any fund; and along a run in which \<open>F2\<close> itself neither
  authorizes nor revokes \<open>b\<close>, \<open>isBotAuthorized F2 b\<close> never changes: a fund's
  authorizations are modified by its own \<open>authorizeBot\<close> and \<open>revokeBot\<close> calls only.
\<close>

theorem authorization_isolated:
  "(F1 \<noteq> F2 \<and> msg_sender e = F1 \<longrightarrow>
      isBotAuthorized (transact s (e, c)) F2 b = isBotAuthorized s F2 b) \<and>
   isBotAuthorized (transact s (e, PurchaseOnBehalf F1 r amt md)) F2 b
     = isBotAuthorized s F2 b \<and>
   ((\<forall>tx \<in> set txs. \<not> manages_bot F2 b tx) \<longrightarrow>
      isBotAuthorized (run s txs) F2 b = isBotAuthorized s F2 b)"
proof -
  have other: "isBotAuthorized (transact s (e, c)) F2 b = isBotAuthorized s F2 b"
    if "F1 \<noteq> F2 \<and> msg_sender e = F1"
  proof -
    from that have "\<not> manages_bot F2 b (e, c)"
      by (auto simp add: manages_bot_def)
    then show ?thesis
      unfolding isBotAuthorized_def by (rule authorized_step)
  qed
  have "\<not> manages_bot F2 b (e, PurchaseOnBehalf F1 r amt md)"
    by (simp add: manages_bot_def)
  then have purchase: "isBotAuthorized (transact s (e, PurchaseOnBehalf F1 r amt md)) F2 b
     = isBotAuthorized s F2 b"
    unfolding isBotAuthorized_def by (rule authorized_step)
  have runs: "isBotAuthorized (run s txs) F2 b = isBotAuthorized s F2 b"
    if "\<forall>tx \<in> set txs. \<not> manages_bot F2 b tx"
    unfolding isBotAuthorized_def using that by (rule authorized_run)
  from other purchase runs show ?thesis by blast
qed

lemma deployed_vault_constructed: "constructor owner_env 8 7 = Inr deployed_vault"
  by (simp add: constructor_def bind_def require_def owner_env_def deployed_vault_def)

lemma ledger_step:
  "\<exists>ext. purchases (transact s tx) = purchases s @ ext \<and> length ext = executed s tx"
proof (cases tx)
  case (Pair e c)
  show ?thesis
  proof (cases "dispatch e c s")
    case (Inl err)
    then show ?thesis
      using Pair by (auto simp add: transact_def executed_def succeeded_def split: call.splits)
  next
    case (Inr s')
    then have tr: "transact s tx = s'" and ok: "succeeded s tx"
      using Pair by (simp_all add: transact_def succeeded_def)
    have "\<exists>ext. purchases s' = purchases s @ ext \<and> length ext = executed s tx"
      using Inr Pair ok
      by (cases c) (auto simp add: executed_def call_Inr_iffs purchase_map_sum_Inr_iff
          set_account_def settled_def Let_def)
    with tr show ?thesis by simp
  qed
qed

lemma ledger_run:
  "\<exists>ext. purchases (run s txs) = purchases s @ ext \<and> length ext = total_over executed s txs"
proof (induction txs arbitrary: s)
  case Nil
  show ?case by (simp add: run_Nil)
next
  case (Cons tx txs)
  from ledger_step [of s tx] obtain ext1 where
    1: "purchases (transact s tx) = purchases s @ ext1" "length ext1 = executed s tx"
    by blast
  from Cons.IH [of "transact s tx"] obtain ext2 where
    2: "purchases (run (transact s tx) txs) = purchases (transact s tx) @ ext2"
       "length ext2 = total_over executed (transact s tx) txs"
    by blast
  from 1 2 have "purchases (run s (tx # txs)) = purchases s @ (ext1 @ ext2) \<and>
      length (ext1 @ ext2) = total_over executed s (tx # txs)"
    by (simp add: run_Cons)
  then show ?case by blast
qed

lemma getPurchase_eq:
  "getPurchase s pid =
     (if unat pid < length (purchases s) then Inr (purchases s ! unat pid)
      else Inl InvalidPurchaseId)"
  by (simp add: getPurchase_def bind_def require_def)

text \<open>
  Claim C8 (the ledger is append-only). A successful purchase receives as id the number
  of purchases recorded before it, which is its position in the ledger, and is appended
  to the ledger and to the fund's index; from deployment on, the count is the number of
  successful purchases, so the i-th of them (from 0) has id i. Over any run the count only
  grows, a record once returned by \<open>getPurchase\<close> is returned unchanged ever after, and
  \<open>getPurchase\<close> fails with \<open>InvalidPurchaseId\<close> exactly for the ids at or above the
  count.
\<close>

theorem ledger_append_only:
  "(purchaseOnBehalf e f r amt md s = Inr (i, s') \<longrightarrow>
      i = getTotalPurchases s \<and> getTotalPurchases s' = Suc i \<and>
      getFundPurchases s' f = getFundPurchases s f @ [i] \<and>
      purchases s' = purchases s @
        [\<lparr>fund = f, bot = msg_sender e, recipient = r, amount = amt,
          fee = amt * platformFeeBps s div BPS_DIVISOR, timestamp = block_timestamp e,
          metadata = md\<rparr>]) \<and>
   (constructor e0 usdc_addr treasury_addr = Inr s0 \<longrightarrow>
      getTotalPurchases (run s0 txs) = total_over executed s0 txs) \<and>
   getTotalPurchases (run s txs) = getTotalPurchases s + total_over executed s txs \<and>
   getTotalPurchases s \<le> getTotalPurchases (run s txs) \<and>
   (getPurchase s pid = Inr p \<longrightarrow> getPurchase (run s txs) pid = Inr p) \<and>
   (getPurchase s pid = Inl InvalidPurchaseId \<longleftrightarrow> getTotalPurchases s \<le> unat pid) \<and>
   (unat pid < getTotalPurchases s \<longrightarrow> getPurchase s pid = Inr (purchases s ! unat pid))"
proof -
  from ledger_run [of s txs] obtain ext where
    ext: "purchases (run s txs) = purchases s @ ext" "length ext = total_over executed s txs"
    by blast
  have one: "i = getTotalPurchases s \<and> getTotalPurchases s' = Suc i \<and>
      getFundPurchases s' f = getFundPurchases s f @ [i] \<and>
      purchases s' = purchases s @
        [\<lparr>fund = f, bot = msg_sender e, recipient = r, amount = amt,
          fee = amt * platformFeeBps s div BPS_DIVISOR, timestamp = block_timestamp e,
          metadata = md\<rparr>]"
    if "purchaseOnBehalf e f r amt md s = Inr (i, s')"
    using that
    by (simp add: purchase_Inr_iff getTotalPurchases_def getFundPurchases_def settled_def
        set_account_def Let_def)
  have fresh: "getTotalPurchases (run s0 txs) = total_over executed s0 txs"
    if "constructor e0 usdc_addr treasury_addr = Inr s0"
  proof -
    from that have "purchases s0 = []"
      by (auto simp add: constructor_def Inr_iffs)
    with ledger_run [of s0 txs] show ?thesis
      by (auto simp add: getTotalPurchases_def)
  qed
  have count: "getTotalPurchases (run s txs) = getTotalPurchases s + total_over executed s txs"
    using ext by (simp add: getTotalPurchases_def)
  have stable: "getPurchase (run s txs) pid = Inr p" if "getPurchase s pid = Inr p"
    using that ext(1) by (simp add: getPurchase_eq nth_append split: if_splits)
  have range: "getPurchase s pid = Inl InvalidPurchaseId \<longleftrightarrow> getTotalPurchases s \<le> unat pid"
    by (simp add: getPurchase_eq getTotalPurchases_def)
  have found: "getPurchase s pid = Inr (purchases s ! unat pid)"
    if "unat pid < getTotalPurchases s"
    using that by (simp add: getPurchase_eq getTotalPurchases_def)
  from one fresh count stable range found show ?thesis by simp
qed

section \<open>Scenarios\<close>

lemma reset_same_day:
  "block_timestamp e div one_day = lastResetDay acc \<Longrightarrow> resetDailyLimitIfNeeded e acc = acc"
  by (simp add: resetDailyLimitIfNeeded_def Let_def)

lemma reset_fresh:
  "todaySpent acc = 0 \<Longrightarrow> lastResetDay acc = 0 \<Longrightarrow>
   resetDailyLimitIfNeeded e acc = acc\<lparr>lastResetDay := block_timestamp e div one_day\<rparr>"
  by (cases "block_timestamp e div one_day = 0")
     (simp_all add: resetDailyLimitIfNeeded_def Let_def pos_word)

lemma settled_account:
  "fundAccounts (settled e f r amt md s) f =
     (resetDailyLimitIfNeeded e (fundAccounts s f))
       \<lparr>balance := balance (resetDailyLimitIfNeeded e (fundAccounts s f))
                    - (amt + amt * platformFeeBps s div BPS_DIVISOR),
        todaySpent := todaySpent (resetDailyLimitIfNeeded e (fundAccounts s f)) + amt\<rparr>"
  by (simp add: settled_def set_account_def Let_def)

lemma settled_fields:
  "platformFeeBps (settled e f r amt md s) = platformFeeBps s"
  "length (purchases (settled e f r amt md s)) = Suc (length (purchases s))"
  by (simp_all add: settled_def set_account_def Let_def)

lemma permitted_account:
  assumes "fundAccounts s f = acc" and "resetDailyLimitIfNeeded e acc = acc'"
    and "r \<noteq> 0" and "amt \<noteq> 0" and "authorizedBots acc (msg_sender e)"
    and "perTransactionLimit acc' = 0 \<or> amt \<le> perTransactionLimit acc'"
    and "dailySpendingLimit acc' = 0 \<or>
           unat (todaySpent acc') + unat amt \<le> unat (dailySpendingLimit acc')"
    and "unat amt * unat (platformFeeBps s) \<le> UINT256_MAX"
    and "unat amt + unat amt * unat (platformFeeBps s) div 10000 \<le> unat (balance acc')"
    and "unat (todaySpent acc') + unat amt \<le> UINT256_MAX"
    and "usdc_call1 e" and "usdc_call2 e"
  shows "permitted e f r amt s"
  using assms by (simp add: permitted_def Let_def)

text \<open>
  Claim C1 (end-to-end scenario), as amended. On a freshly deployed vault (fee 200 bps) a
  fund deposits 1000.00, authorizes bot \<open>B\<close> and sets a daily limit of 500.00 and a
  per-transaction limit of 150.00. A first purchase of 150.00 by \<open>B\<close> succeeds with fee
  3.00 and leaves balance 847.00 and \<open>todaySpent\<close> 150.00; a second one the same day
  succeeds and leaves \<open>todaySpent\<close> 300.00; a third one the same day succeeds as well,
  since 300 + 150 = 450 does not exceed 500, and leaves balance 541.00 and \<open>todaySpent\<close>
  450.00; a fourth one the same day fails with \<open>ExceedsDailyLimit\<close>, and balance and
  \<open>todaySpent\<close> stay at their values after the third purchase.
\<close>

theorem end_to_end_scenario:
  assumes addrs: "usdc_addr \<noteq> 0" "treasury_addr \<noteq> 0" "B \<noteq> 0" "R \<noteq> 0"
    and fund_calls: "msg_sender eD = F" "usdc_call1 eD" "msg_sender eA = F" "msg_sender eL = F"
    and bot_calls: "msg_sender e1 = B" "msg_sender e2 = B" "msg_sender e3 = B" "msg_sender e4 = B"
    and transfers: "usdc_call1 e1" "usdc_call2 e1" "usdc_call1 e2" "usdc_call2 e2"
      "usdc_call1 e3" "usdc_call2 e3"
    and same_day: "block_timestamp e2 div one_day = block_timestamp e1 div one_day"
      "block_timestamp e3 div one_day = block_timestamp e1 div one_day"
      "block_timestamp e4 div one_day = block_timestamp e1 div one_day"
  shows "\<exists>s0 s1 s2 s3 s4 s5 s6.
     constructor e0 usdc_addr treasury_addr = Inr s0 \<and> platformFeeBps s0 = 200 \<and>
     deposit eD 1000000000 s0 = Inr s1 \<and>
     authorizeBot eA B s1 = Inr s2 \<and>
     setLimits eL 500000000 150000000 s2 = Inr s3 \<and>
     purchaseOnBehalf e1 F R 150000000 md s3 = Inr (0, s4) \<and>
     fee (purchases s4 ! 0) = 3000000 \<and>
     balance (fundAccounts s4 F) = 847000000 \<and> todaySpent (fundAccounts s4 F) = 150000000 \<and>
     purchaseOnBehalf e2 F R 150000000 md s4 = Inr (1, s5) \<and>
     balance (fundAccounts s5 F) = 694000000 \<and> todaySpent (fundAccounts s5 F) = 300000000 \<and>
     purchaseOnBehalf e3 F R 150000000 md s5 = Inr (2, s6) \<and>
     balance (fundAccounts s6 F) = 541000000 \<and> todaySpent (fundAccounts s6 F) = 450000000 \<and>
     purchaseOnBehalf e4 F R 150000000 md s6 = Inl ExceedsDailyLimit \<and>
     balance (fundAccounts (transact s6 (e4, PurchaseOnBehalf F R 150000000 md)) F) = 541000000 \<and>
     todaySpent (fundAccounts (transact s6 (e4, PurchaseOnBehalf F R 150000000 md)) F) = 450000000"
proof -
  define d where "d = block_timestamp e1 div one_day"
  define s0 where "s0 = \<lparr>owner = msg_sender e0, platformFeeBps = 200, treasury = treasury_addr,
          fundAccounts = (\<lambda>_. zero_account), purchases = [],
          fundPurchaseIndices = (\<lambda>_. [])\<rparr>"
  define s1 where "s1 = set_account F (zero_account\<lparr>balance := 1000000000\<rparr>) s0"
  define s2 where "s2 = set_account F ((fundAccounts s1 F)
      \<lparr>authorizedBots := (authorizedBots (fundAccounts s1 F))(B := True)\<rparr>) s1"
  define s3 where "s3 = set_account F ((fundAccounts s2 F)
      \<lparr>dailySpendingLimit := 500000000, perTransactionLimit := 150000000\<rparr>) s2"
  define s4 where "s4 = settled e1 F R 150000000 md s3"
  define s5 where "s5 = settled e2 F R 150000000 md s4"
  define s6 where "s6 = settled e3 F R 150000000 md s5"
  define auth where "auth = (\<lambda>_::address. False)(B := True)"
  have c0: "constructor e0 usdc_addr treasury_addr = Inr s0"
    using addrs by (simp add: constructor_def bind_def require_def s0_def)
  have c1: "deposit eD 1000000000 s0 = Inr s1"
    using fund_calls
    by (simp add: deposit_Inr_iff s0_def s1_def zero_account_def UINT256_MAX_def)
  have c2: "authorizeBot eA B s1 = Inr s2"
    using fund_calls addrs
    by (simp add: authorizeBot_Inr_iff s0_def s1_def s2_def zero_account_def set_account_def)
  have c3: "setLimits eL 500000000 150000000 s2 = Inr s3"
    using fund_calls by (simp add: setLimits_Inr_iff s3_def)
  have a3: "fundAccounts s3 F = \<lparr>balance = 1000000000, dailySpendingLimit = 500000000,
      perTransactionLimit = 150000000, todaySpent = 0, lastResetDay = 0, authorizedBots = auth\<rparr>"
    by (simp add: s3_def s2_def s1_def s0_def set_account_def zero_account_def auth_def)
  have bps3: "platformFeeBps s3 = 200" and len3: "length (purchases s3) = 0"
    by (simp_all add: s3_def s2_def s1_def s0_def set_account_def)
  have r1: "resetDailyLimitIfNeeded e1 (fundAccounts s3 F) = \<lparr>balance = 1000000000,
      dailySpendingLimit = 500000000, perTransactionLimit = 150000000, todaySpent = 0,
      lastResetDay = d, authorizedBots = auth\<rparr>"
    unfolding a3 d_def by (simp add: reset_fresh)
  have p1: "permitted e1 F R 150000000 s3"
    using addrs bot_calls transfers
    by (intro permitted_account [OF a3 r1 [unfolded a3]])
       (simp_all add: bps3 auth_def UINT256_MAX_def)
  have a4: "fundAccounts s4 F = \<lparr>balance = 847000000, dailySpendingLimit = 500000000,
      perTransactionLimit = 150000000, todaySpent = 150000000, lastResetDay = d,
      authorizedBots = auth\<rparr>"
    unfolding s4_def settled_account r1 by (simp add: bps3 BPS_DIVISOR_def)
  have bps4: "platformFeeBps s4 = 200" and len4: "length (purchases s4) = 1"
    by (simp_all add: s4_def settled_fields bps3 len3)
  have r2: "resetDailyLimitIfNeeded e2 (fundAccounts s4 F) = fundAccounts s4 F"
    by (rule reset_same_day) (simp add: a4 same_day d_def)
  have p2: "permitted e2 F R 150000000 s4"
    using addrs bot_calls transfers
    by (intro permitted_account [OF a4 r2 [unfolded a4]])
       (simp_all add: bps4 auth_def UINT256_MAX_def)
  have a5: "fundAccounts s5 F = \<lparr>balance = 694000000, dailySpendingLimit = 500000000,
      perTransactionLimit = 150000000, todaySpent = 300000000, lastResetDay = d,
      authorizedBots = auth\<rparr>"
    unfolding s5_def settled_account r2 unfolding a4 by (simp add: bps4 BPS_DIVISOR_def)
  have bps5: "platformFeeBps s5 = 200" and len5: "length (purchases s5) = 2"
    by (simp_all add: s5_def settled_fields bps4 len4)
  have r3: "resetDailyLimitIfNeeded e3 (fundAccounts s5 F) = fundAccounts s5 F"
    by (rule reset_same_day) (simp add: a5 same_day d_def)
  have p3: "permitted e3 F R 150000000 s5"
    using addrs bot_calls transfers
    by (intro permitted_account [OF a5 r3 [unfolded a5]])
       (simp_all add: bps5 auth_def UINT256_MAX_def)
  have a6: "fundAccounts s6 F = \<lparr>balance = 541000000, dailySpendingLimit = 500000000,
      perTransactionLimit = 150000000, todaySpent = 450000000, lastResetDay = d,
      authorizedBots = auth\<rparr>"
    unfolding s6_def settled_account r3 unfolding a5 by (simp add: bps5 BPS_DIVISOR_def)
  have r4: "resetDailyLimitIfNeeded e4 (fundAccounts s6 F) = fundAccounts s6 F"
    by (rule reset_same_day) (simp add: a6 same_day d_def)
  have x4: "purchaseOnBehalf e4 F R 150000000 md s6 = Inl ExceedsDailyLimit"
    unfolding purchase_Inl_daily_iff Let_def r4 unfolding a6
    using addrs bot_calls by (simp add: auth_def UINT256_MAX_def)
  then have t4: "transact s6 (e4, PurchaseOnBehalf F R 150000000 md) = s6"
    by (simp add: transact_def)
  have f1: "fee (purchases s4 ! 0) = 3000000"
    using settled_record [of e1 F R 150000000 md s3]
    by (simp add: s4_def len3 bps3 BPS_DIVISOR_def)
  from purchase_permitted [OF p1, of md] have c4: "purchaseOnBehalf e1 F R 150000000 md s3 = Inr (0, s4)"
    by (simp add: len3 s4_def)
  from purchase_permitted [OF p2, of md] have c5: "purchaseOnBehalf e2 F R 150000000 md s4 = Inr (1, s5)"
    by (simp add: len4 s5_def)
  from purchase_permitted [OF p3, of md] have c6: "purchaseOnBehalf e3 F R 150000000 md s5 = Inr (2, s6)"
    by (simp add: len5 s6_def)
  have bps0: "platformFeeBps s0 = 200" by (simp add: s0_def)
  have b4: "balance (fundAccounts s4 F) = 847000000"
    and t4': "todaySpent (fundAccounts s4 F) = 150000000"
    unfolding a4 by simp_all
  have b5: "balance (fundAccounts s5 F) = 694000000"
    and t5: "todaySpent (fundAccounts s5 F) = 300000000"
    unfolding a5 by simp_all
  have b6: "balance (fundAccounts s6 F) = 541000000"
    and t6: "todaySpent (fundAccounts s6 F) = 450000000"
    unfolding a6 by simp_all
  have b7: "balance (fundAccounts (transact s6 (e4, PurchaseOnBehalf F R 150000000 md)) F)
      = 541000000"
    and t7: "todaySpent (fundAccounts (transact s6 (e4, PurchaseOnBehalf F R 150000000 md)) F)
      = 450000000"
    unfolding t4 by (fact b6, fact t6)
  show ?thesis
    by (intro exI [of _ s0] exI [of _ s1] exI [of _ s2] exI [of _ s3] exI [of _ s4]
        exI [of _ s5] exI [of _ s6] conjI; fact)
qed

lemma funded_vault_reached:
  "bind (deposit fund_env 1000000000 deployed_vault) (authorizeBot fund_env 4) = Inr funded_vault"
  by (simp add: deposit_def authorizeBot_def bind_def require_def checked_add_def
      deployed_vault_def fixture_defs)

lemma limited_account:
  "fundAccounts limited_vault 2 =
     \<lparr>balance = 1000000000, dailySpendingLimit = 500000000, perTransactionLimit = 150000000,
      todaySpent = 0, lastResetDay = 0, authorizedBots = (\<lambda>_. False)(4 := True)\<rparr>"
  "platformFeeBps limited_vault = 200" "purchases limited_vault = []"
  by (simp_all add: limited_vault_def fixture_defs)

lemma after_first_account:
  "fundAccounts after_first 2 =
     \<lparr>balance = 847000000, dailySpendingLimit = 500000000, perTransactionLimit = 150000000,
      todaySpent = 150000000, lastResetDay = 19675, authorizedBots = (\<lambda>_. False)(4 := True)\<rparr>"
  "platformFeeBps after_first = 200" "length (purchases after_first) = 1"
  unfolding after_first_def settled_account settled_fields limited_account
  by (simp_all add: resetDailyLimitIfNeeded_def bot_env_def one_day_def BPS_DIVISOR_def)

lemma after_second_account:
  "fundAccounts after_second 2 =
     \<lparr>balance = 694000000, dailySpendingLimit = 500000000, perTransactionLimit = 150000000,
      todaySpent = 300000000, lastResetDay = 19675, authorizedBots = (\<lambda>_. False)(4 := True)\<rparr>"
  "platformFeeBps after_second = 200" "length (purchases after_second) = 2"
  unfolding after_second_def settled_account settled_fields after_first_account
  by (simp_all add: resetDailyLimitIfNeeded_def bot_env_def one_day_def BPS_DIVISOR_def)

lemma permitted_first: "permitted bot_env 2 6 150000000 limited_vault"
  unfolding permitted_def Let_def limited_account
  by (simp add: resetDailyLimitIfNeeded_def bot_env_def one_day_def UINT256_MAX_def)

lemma permitted_second: "permitted bot_env 2 6 150000000 after_first"
  unfolding permitted_def Let_def after_first_account
  by (simp add: resetDailyLimitIfNeeded_def bot_env_def one_day_def UINT256_MAX_def)

lemma permitted_third: "permitted bot_env 2 6 150000000 after_second"
  unfolding permitted_def Let_def after_second_account
  by (simp add: resetDailyLimitIfNeeded_def bot_env_def one_day_def UINT256_MAX_def)

text \<open>
  The scenario as first worded, with the third purchase rejected, fails: the third
  purchase of 150.00 does not end in \<open>ExceedsDailyLimit\<close>, it succeeds with purchase
  id 2.
\<close>

theorem third_purchase_counterexample:
  "constructor owner_env 8 7 = Inr deployed_vault \<and>
   bind (deposit fund_env 1000000000 deployed_vault) (authorizeBot fund_env 4)
     = Inr funded_vault \<and>
   setLimits fund_env 500000000 150000000 funded_vault = Inr limited_vault \<and>
   purchaseOnBehalf bot_env 2 6 150000000 ''svc'' limited_vault = Inr (0, after_first) \<and>
   purchaseOnBehalf bot_env 2 6 150000000 ''svc'' after_first = Inr (1, after_second) \<and>
   todaySpent (fundAccounts after_second 2) = 300000000 \<and>
   purchaseOnBehalf bot_env 2 6 150000000 ''svc'' after_second \<noteq> Inl ExceedsDailyLimit \<and>
   purchaseOnBehalf bot_env 2 6 150000000 ''svc'' after_second
     = Inr (2, settled bot_env 2 6 150000000 ''svc'' after_second)"
proof -
  have 1: "purchaseOnBehalf bot_env 2 6 150000000 ''svc'' limited_vault = Inr (0, after_first)"
    using purchase_permitted [OF permitted_first, of "''svc''"]
    by (simp add: limited_account after_first_def)
  have 2: "purchaseOnBehalf bot_env 2 6 150000000 ''svc'' after_first = Inr (1, after_second)"
    using purchase_permitted [OF permitted_second, of "''svc''"]
    by (simp add: after_first_account after_second_def)
  have 3: "purchaseOnBehalf bot_env 2 6 150000000 ''svc'' after_second
     = Inr (2, settled bot_env 2 6 150000000 ''svc'' after_second)"
    using purchase_permitted [OF permitted_third, of "''svc''"]
    by (simp add: after_second_account)
  have 4: "todaySpent (fundAccounts after_second 2) = 300000000"
    by (simp add: after_second_account)
  from 1 2 3 4 deployed_vault_constructed funded_vault_reached limited_vault_reachable
  show ?thesis by simp
qed

text \<open>
  The scenario with fund 2, bot 4 and recipient 6, all four purchases in one block.
\<close>

theorem end_to_end_scenario_witness:
  "(8 :: address) \<noteq> 0 \<and> (7 :: address) \<noteq> 0 \<and> (4 :: address) \<noteq> 0 \<and> (6 :: address) \<noteq> 0 \<and>
   msg_sender fund_env = 2 \<and> usdc_call1 fund_env \<and>
   msg_sender bot_env = 4 \<and> usdc_call1 bot_env \<and> usdc_call2 bot_env \<and>
   (\<exists>s0 s1 s2 s3 s4 s5 s6.
     constructor owner_env 8 7 = Inr s0 \<and> platformFeeBps s0 = 200 \<and>
     deposit fund_env 1000000000 s0 = Inr s1 \<and>
     authorizeBot fund_env 4 s1 = Inr s2 \<and>
     setLimits fund_env 500000000 150000000 s2 = Inr s3 \<and>
     purchaseOnBehalf bot_env 2 6 150000000 ''svc'' s3 = Inr (0, s4) \<and>
     fee (purchases s4 ! 0) = 3000000 \<and>
     balance (fundAccounts s4 2) = 847000000 \<and> todaySpent (fundAccounts s4 2) = 150000000 \<and>
     purchaseOnBehalf bot_env 2 6 150000000 ''svc'' s4 = Inr (1, s5) \<and>
     balance (fundAccounts s5 2) = 694000000 \<and> todaySpent (fundAccounts s5 2) = 300000000 \<and>
     purchaseOnBehalf bot_env 2 6 150000000 ''svc'' s5 = Inr (2, s6) \<and>
     balance (fundAccounts s6 2) = 541000000 \<and> todaySpent (fundAccounts s6 2) = 450000000 \<and>
     purchaseOnBehalf bot_env 2 6 150000000 ''svc'' s6 = Inl ExceedsDailyLimit \<and>
     balance (fundAccounts (transact s6 (bot_env, PurchaseOnBehalf 2 6 150000000 ''svc'')) 2)
       = 541000000 \<and>
     todaySpent (fundAccounts (transact s6 (bot_env, PurchaseOnBehalf 2 6 150000000 ''svc'')) 2)
       = 450000000)"
proof -
  have a: "(8 :: address) \<noteq> 0" "(7 :: address) \<noteq> 0" "(4 :: address) \<noteq> 0" "(6 :: address) \<noteq> 0"
    by simp_all
  have f: "msg_sender fund_env = 2" "usdc_call1 fund_env"
    by (simp_all add: fund_env_def)
  have b: "msg_sender bot_env = 4" "usdc_call1 bot_env" "usdc_call2 bot_env"
    by (simp_all add: bot_env_def)
  have d: "block_timestamp bot_env div one_day = block_timestamp bot_env div one_day" ..
  note w = end_to_end_scenario [OF a f(1) f(2) f(1) f(1) b(1) b(1) b(1) b(1)
      b(2) b(3) b(2) b(3) b(2) b(3) d d d, of owner_env "''svc''"]
  show ?thesis
    by (intro conjI a f b w)
qed

lemma unat_double:
  "2 * unat (L::uint256) \<le> UINT256_MAX \<Longrightarrow> unat (2 * L) = 2 * unat L"
  using unat_mul_fits [of 2 L] by simp

lemma reset_start_of_day:
  assumes "todaySpent acc = 0 \<or> lastResetDay acc < block_timestamp e div one_day"
    and "lastResetDay acc \<le> block_timestamp e div one_day"
  shows "resetDailyLimitIfNeeded e acc =
           acc\<lparr>todaySpent := 0, lastResetDay := block_timestamp e div one_day\<rparr>"
proof (cases "lastResetDay acc < block_timestamp e div one_day")
  case True
  then show ?thesis by (simp add: resetDailyLimitIfNeeded_def Let_def)
next
  case False
  with assms have "todaySpent acc = 0" and "lastResetDay acc = block_timestamp e div one_day"
    by auto
  then show ?thesis
    using False by (simp add: resetDailyLimitIfNeeded_def Let_def)
qed

lemma reset_next_day:
  "lastResetDay acc < block_timestamp e div one_day \<Longrightarrow>
   resetDailyLimitIfNeeded e acc =
     acc\<lparr>todaySpent := 0, lastResetDay := block_timestamp e div one_day\<rparr>"
  by (simp add: resetDailyLimitIfNeeded_def Let_def)

text \<open>
  Claim C5 (daily reset), as amended. Let the per-transaction limit be \<open>L \<noteq> 0\<close> and
  the daily limit \<open>2 * L\<close>, the bot authorized, nothing spent yet on the day of the first
  call, the balance enough for three purchases of \<open>L\<close> with their fees, and the product
  \<open>L * platformFeeBps\<close> within \<open>uint256\<close>. Then two purchases of \<open>L\<close> on the same day
  both succeed, a third one that day fails with \<open>ExceedsDailyLimit\<close>, and the same
  purchase on a later day succeeds and leaves \<open>todaySpent = L\<close> and \<open>lastResetDay\<close> at
  the new day index.
\<close>

theorem daily_reset:
  assumes L: "L \<noteq> 0" "2 * unat L \<le> UINT256_MAX"
    and limits: "perTransactionLimit (fundAccounts s F) = L"
      "dailySpendingLimit (fundAccounts s F) = 2 * L"
    and auth: "authorizedBots (fundAccounts s F) B" "R \<noteq> 0"
    and start: "todaySpent (fundAccounts s F) = 0 \<or>
        lastResetDay (fundAccounts s F) < block_timestamp e1 div one_day"
      "lastResetDay (fundAccounts s F) \<le> block_timestamp e1 div one_day"
    and bot_calls: "msg_sender e1 = B" "msg_sender e2 = B" "msg_sender e3 = B" "msg_sender e4 = B"
    and transfers: "usdc_call1 e1" "usdc_call2 e1" "usdc_call1 e2" "usdc_call2 e2"
      "usdc_call1 e4" "usdc_call2 e4"
    and same_day: "block_timestamp e2 div one_day = block_timestamp e1 div one_day"
      "block_timestamp e3 div one_day = block_timestamp e1 div one_day"
    and next_day: "block_timestamp e1 div one_day < block_timestamp e4 div one_day"
    and fits: "unat L * unat (platformFeeBps s) \<le> UINT256_MAX"
    and funds: "3 * (unat L + unat L * unat (platformFeeBps s) div 10000)
        \<le> unat (balance (fundAccounts s F))"
  shows "\<exists>s1 s2 s3.
     purchaseOnBehalf e1 F R L md s = Inr (length (purchases s), s1) \<and>
     purchaseOnBehalf e2 F R L md s1 = Inr (length (purchases s) + 1, s2) \<and>
     todaySpent (fundAccounts s2 F) = 2 * L \<and>
     purchaseOnBehalf e3 F R L md s2 = Inl ExceedsDailyLimit \<and>
     purchaseOnBehalf e4 F R L md s2 = Inr (length (purchases s) + 2, s3) \<and>
     todaySpent (fundAccounts s3 F) = L \<and>
     lastResetDay (fundAccounts s3 F) = block_timestamp e4 div one_day"
proof -
  define d where "d = block_timestamp e1 div one_day"
  define acc where "acc = fundAccounts s F"
  define T where "T = unat L + unat L * unat (platformFeeBps s) div 10000"
  define s1 where "s1 = settled e1 F R L md s"
  define s2 where "s2 = settled e2 F R L md s1"
  define s3 where "s3 = settled e4 F R L md s2"
  have dbl: "unat (2 * L) = 2 * unat L"
    using L(2) by (rule unat_double)
  have Lpos: "0 < unat L"
    using L(1) by (simp add: unat_gt_0)
  have three: "3 * unat L \<le> UINT256_MAX"
    using funds by (intro le_unat_fits [of _ "balance (fundAccounts s F)"]) simp
  \<comment> \<open>first purchase\<close>
  have r1: "resetDailyLimitIfNeeded e1 (fundAccounts s F) =
      (fundAccounts s F)\<lparr>todaySpent := 0, lastResetDay := d\<rparr>"
    unfolding d_def using start by (rule reset_start_of_day)
  have p1: "permitted e1 F R L s"
    using L auth bot_calls transfers fits funds limits
    by (intro permitted_account [OF refl r1]) (simp_all add: dbl)
  have a1: "dailySpendingLimit (fundAccounts s1 F) = 2 * L"
    "perTransactionLimit (fundAccounts s1 F) = L"
    "todaySpent (fundAccounts s1 F) = L" "lastResetDay (fundAccounts s1 F) = d"
    "authorizedBots (fundAccounts s1 F) = authorizedBots acc"
    unfolding s1_def settled_account r1 by (simp_all add: limits acc_def)
  have bps1: "platformFeeBps s1 = platformFeeBps s"
    and len1: "length (purchases s1) = length (purchases s) + 1"
    by (simp_all add: s1_def settled_fields)
  have b1: "unat (balance (fundAccounts s1 F)) + T = unat (balance acc)"
    unfolding s1_def T_def acc_def using p1 by (rule settled_balance)
  \<comment> \<open>second purchase, same day\<close>
  have r2: "resetDailyLimitIfNeeded e2 (fundAccounts s1 F) = fundAccounts s1 F"
    by (rule reset_same_day) (simp add: a1 same_day d_def)
  have p2: "permitted e2 F R L s1"
    using L auth bot_calls transfers fits funds b1
    by (intro permitted_account [OF refl r2])
       (simp_all add: a1 bps1 dbl acc_def T_def)
  have a2: "dailySpendingLimit (fundAccounts s2 F) = 2 * L"
    "perTransactionLimit (fundAccounts s2 F) = L"
    "todaySpent (fundAccounts s2 F) = 2 * L" "lastResetDay (fundAccounts s2 F) = d"
    "authorizedBots (fundAccounts s2 F) = authorizedBots acc"
    unfolding s2_def settled_account r2 by (simp_all add: a1)
  have bps2: "platformFeeBps s2 = platformFeeBps s"
    and len2: "length (purchases s2) = length (purchases s) + 2"
    by (simp_all add: s2_def settled_fields bps1 len1)
  have b2: "unat (balance (fundAccounts s2 F)) + T = unat (balance (fundAccounts s1 F))"
    unfolding s2_def T_def bps1 [symmetric] using p2 by (rule settled_balance)
  \<comment> \<open>third purchase, same day: over the daily limit\<close>
  have r3: "resetDailyLimitIfNeeded e3 (fundAccounts s2 F) = fundAccounts s2 F"
    by (rule reset_same_day) (simp add: a2 same_day d_def)
  have x3: "purchaseOnBehalf e3 F R L md s2 = Inl ExceedsDailyLimit"
    unfolding purchase_Inl_daily_iff Let_def r3
    using L auth bot_calls three Lpos
    by (simp add: a2 dbl acc_def unat_eq_0 [symmetric])
  \<comment> \<open>the same purchase on the next day\<close>
  have r4: "resetDailyLimitIfNeeded e4 (fundAccounts s2 F) =
      (fundAccounts s2 F)\<lparr>todaySpent := 0, lastResetDay := block_timestamp e4 div one_day\<rparr>"
    by (rule reset_next_day) (simp add: a2 next_day d_def)
  have p4: "permitted e4 F R L s2"
    using L auth bot_calls transfers fits funds b1 b2
    by (intro permitted_account [OF refl r4])
       (simp_all add: a2 bps2 dbl acc_def T_def)
  have a3: "todaySpent (fundAccounts s3 F) = L"
    "lastResetDay (fundAccounts s3 F) = block_timestamp e4 div one_day"
    unfolding s3_def settled_account r4 by simp_all
  have t2: "todaySpent (fundAccounts s2 F) = 2 * L"
    by (simp add: a2)
  from purchase_permitted [OF p1, of md]
  have c1: "purchaseOnBehalf e1 F R L md s = Inr (length (purchases s), s1)"
    by (simp add: s1_def)
  from purchase_permitted [OF p2, of md]
  have c2: "purchaseOnBehalf e2 F R L md s1 = Inr (length (purchases s) + 1, s2)"
    by (simp add: s2_def len1)
  from purchase_permitted [OF p4, of md]
  have c4: "purchaseOnBehalf e4 F R L md s2 = Inr (length (purchases s) + 2, s3)"
    by (simp add: s3_def len2)
  show ?thesis
    by (intro exI [of _ s1] exI [of _ s2] exI [of _ s3] conjI; fact)
qed

lemma whale_vault_reached:
  "bind (deposit fund_env (2 ^ 255) deployed_vault) (\<lambda>s.
   bind (authorizeBot fund_env 4 s) (setLimits fund_env (2 ^ 251) (2 ^ 250))) = Inr whale_vault"
  by (simp add: deposit_def authorizeBot_def setLimits_def bind_def require_def checked_add_def
      deployed_vault_def whale_vault_def fund_env_def zero_account_def set_account_def
      UINT256_MAX_def Let_def)

text \<open>
  Without the bound on \<open>L * platformFeeBps\<close> the daily-reset property fails: with
  \<open>L = 2 ^ 250\<close>, a daily limit of \<open>2 * L\<close>, an authorized bot and a balance above three
  times amount plus fee, the first purchase of \<open>L\<close> reverts with an arithmetic panic,
  since \<open>L * 200\<close> exceeds \<open>type(uint256).max\<close>.
\<close>

theorem daily_reset_overflow_counterexample:
  "constructor owner_env 8 7 = Inr deployed_vault \<and>
   bind (deposit fund_env (2 ^ 255) deployed_vault) (\<lambda>s.
   bind (authorizeBot fund_env 4 s) (setLimits fund_env (2 ^ 251) (2 ^ 250))) = Inr whale_vault \<and>
   perTransactionLimit (fundAccounts whale_vault 2) = 2 ^ 250 \<and>
   (2 ^ 250 :: uint256) \<noteq> 0 \<and>
   dailySpendingLimit (fundAccounts whale_vault 2) = 2 * 2 ^ 250 \<and>
   authorizedBots (fundAccounts whale_vault 2) (msg_sender bot_env) \<and>
   todaySpent (fundAccounts whale_vault 2) = 0 \<and>
   platformFeeBps whale_vault = 200 \<and>
   3 * (2 ^ 250 + 2 ^ 250 * 200 div 10000) \<le> unat (balance (fundAccounts whale_vault 2)) \<and>
   usdc_call1 bot_env \<and> usdc_call2 bot_env \<and>
   purchaseOnBehalf bot_env 2 6 (2 ^ 250) ''svc'' whale_vault = Inl ArithmeticPanic"
proof -
  have "purchaseOnBehalf bot_env 2 6 (2 ^ 250) ''svc'' whale_vault = Inl ArithmeticPanic"
    by (simp add: purchaseOnBehalf_def bind_def require_def checked_add_def checked_mul_def
        resetDailyLimitIfNeeded_def whale_vault_def bot_env_def one_day_def UINT256_MAX_def
        Let_def)
  moreover have "3 * (2 ^ 250 + 2 ^ 250 * 200 div 10000)
      \<le> unat (balance (fundAccounts whale_vault 2))"
    by (simp add: whale_vault_def)
  ultimately show ?thesis
    using deployed_vault_constructed whale_vault_reached
    by (simp add: whale_vault_def bot_env_def)
qed

lemma doubled_account:
  "fundAccounts doubled_vault 2 =
     \<lparr>balance = 1000000000, dailySpendingLimit = 300000000, perTransactionLimit = 150000000,
      todaySpent = 0, lastResetDay = 0, authorizedBots = (\<lambda>_. False)(4 := True)\<rparr>"
  "platformFeeBps doubled_vault = 200" "purchases doubled_vault = []"
  by (simp_all add: doubled_vault_def fixture_defs)

text \<open>
  An instance with \<open>L\<close> = 150.00 and the fourth call 86400 seconds after the others.
\<close>

theorem daily_reset_witness:
  "(150000000 :: uint256) \<noteq> 0 \<and> 2 * unat (150000000 :: uint256) \<le> UINT256_MAX \<and>
   perTransactionLimit (fundAccounts doubled_vault 2) = 150000000 \<and>
   dailySpendingLimit (fundAccounts doubled_vault 2) = 2 * 150000000 \<and>
   authorizedBots (fundAccounts doubled_vault 2) 4 \<and> (6 :: address) \<noteq> 0 \<and>
   todaySpent (fundAccounts doubled_vault 2) = 0 \<and>
   lastResetDay (fundAccounts doubled_vault 2) \<le> block_timestamp bot_env div one_day \<and>
   msg_sender bot_env = 4 \<and> msg_sender next_day_env = 4 \<and>
   usdc_call1 bot_env \<and> usdc_call2 bot_env \<and> usdc_call1 next_day_env \<and> usdc_call2 next_day_env \<and>
   block_timestamp bot_env div one_day < block_timestamp next_day_env div one_day \<and>
   unat (150000000 :: uint256) * unat (platformFeeBps doubled_vault) \<le> UINT256_MAX \<and>
   3 * (unat (150000000 :: uint256)
        + unat (150000000 :: uint256) * unat (platformFeeBps doubled_vault) div 10000)
     \<le> unat (balance (fundAccounts doubled_vault 2)) \<and>
   (\<exists>s1 s2 s3.
     purchaseOnBehalf bot_env 2 6 150000000 ''svc'' doubled_vault
       = Inr (length (purchases doubled_vault), s1) \<and>
     purchaseOnBehalf bot_env 2 6 150000000 ''svc'' s1
       = Inr (length (purchases doubled_vault) + 1, s2) \<and>
     todaySpent (fundAccounts s2 2) = 2 * 150000000 \<and>
     purchaseOnBehalf bot_env 2 6 150000000 ''svc'' s2 = Inl ExceedsDailyLimit \<and>
     purchaseOnBehalf next_day_env 2 6 150000000 ''svc'' s2
       = Inr (length (purchases doubled_vault) + 2, s3) \<and>
     todaySpent (fundAccounts s3 2) = 150000000 \<and>
     lastResetDay (fundAccounts s3 2) = block_timestamp next_day_env div one_day)"
proof -
  have L: "(150000000 :: uint256) \<noteq> 0" "2 * unat (150000000 :: uint256) \<le> UINT256_MAX"
    by (simp_all add: UINT256_MAX_def)
  have limits: "perTransactionLimit (fundAccounts doubled_vault 2) = 150000000"
    "dailySpendingLimit (fundAccounts doubled_vault 2) = 2 * 150000000"
    by (simp_all add: doubled_account)
  have auth: "authorizedBots (fundAccounts doubled_vault 2) 4" "(6 :: address) \<noteq> 0"
    by (simp_all add: doubled_account)
  have spent: "todaySpent (fundAccounts doubled_vault 2) = 0"
    by (simp add: doubled_account)
  have day: "lastResetDay (fundAccounts doubled_vault 2) \<le> block_timestamp bot_env div one_day"
    by (simp add: doubled_account)
  have bot: "msg_sender bot_env = 4" "msg_sender next_day_env = 4"
    by (simp_all add: bot_env_def next_day_env_def)
  have tr: "usdc_call1 bot_env" "usdc_call2 bot_env" "usdc_call1 next_day_env"
    "usdc_call2 next_day_env"
    by (simp_all add: bot_env_def next_day_env_def)
  have same: "block_timestamp bot_env div one_day = block_timestamp bot_env div one_day" ..
  have nxt: "block_timestamp bot_env div one_day < block_timestamp next_day_env div one_day"
    by (simp add: bot_env_def next_day_env_def one_day_def)
  have fits: "unat (150000000 :: uint256) * unat (platformFeeBps doubled_vault) \<le> UINT256_MAX"
    by (simp add: doubled_account UINT256_MAX_def)
  have funds: "3 * (unat (150000000 :: uint256)
        + unat (150000000 :: uint256) * unat (platformFeeBps doubled_vault) div 10000)
     \<le> unat (balance (fundAccounts doubled_vault 2))"
    by (simp add: doubled_account)
  note w = daily_reset [OF L limits auth disjI1 [OF spent] day bot(1) bot(1) bot(1) bot(2)
      tr(1) tr(2) tr(1) tr(2) tr(3) tr(4) same same nxt fits funds, of "''svc''"]
  show ?thesis
    by (intro conjI L limits auth spent day bot tr nxt fits funds w)
qed

section \<open>Instances of the run properties\<close>

lemmas call_defs = deposit_def withdraw_def authorizeBot_def revokeBot_def setLimits_def
  purchaseOnBehalf_def setPlatformFee_def setTreasury_def bind_def require_def
  checked_add_def checked_mul_def set_account_def resetDailyLimitIfNeeded_def
  transact_def run_def succeeded_def

text \<open>
  An instance: fund 3 authorizes bot 5, which fund 2 never did; bot 5 is then authorized
  for fund 3 and still not for fund 2, also after further transactions.
\<close>

theorem authorization_isolated_witness:
  "(3 :: address) \<noteq> 2 \<and> msg_sender (fund_env\<lparr>msg_sender := 3\<rparr>) = 3 \<and>
   isBotAuthorized (transact funded_vault (fund_env\<lparr>msg_sender := 3\<rparr>, AuthorizeBot 5)) 3 5 \<and>
   \<not> isBotAuthorized funded_vault 2 5 \<and>
   \<not> isBotAuthorized (transact funded_vault (fund_env\<lparr>msg_sender := 3\<rparr>, AuthorizeBot 5)) 2 5 \<and>
   \<not> manages_bot 2 5 (fund_env\<lparr>msg_sender := 3\<rparr>, AuthorizeBot 5) \<and>
   \<not> manages_bot 2 5 (bot_env, PurchaseOnBehalf 2 6 150000000 ''svc'') \<and>
   \<not> manages_bot 2 5 (fund_env, AuthorizeBot 4) \<and>
   \<not> isBotAuthorized (run funded_vault [(fund_env\<lparr>msg_sender := 3\<rparr>, AuthorizeBot 5),
                 (bot_env, PurchaseOnBehalf 2 6 150000000 ''svc''),
                 (fund_env, AuthorizeBot 4)]) 2 5"
proof -
  have ne: "(3 :: address) \<noteq> 2" by simp
  have snd: "msg_sender (fund_env\<lparr>msg_sender := 3\<rparr>) = 3" by simp
  have own: "isBotAuthorized (transact funded_vault (fund_env\<lparr>msg_sender := 3\<rparr>, AuthorizeBot 5)) 3 5"
    by (simp add: isBotAuthorized_def call_defs fixture_defs)
  have before: "\<not> isBotAuthorized funded_vault 2 5"
    by (simp add: isBotAuthorized_def fixture_defs)
  have q: "\<not> manages_bot 2 5 (fund_env\<lparr>msg_sender := 3\<rparr>, AuthorizeBot 5)"
    "\<not> manages_bot 2 5 (bot_env, PurchaseOnBehalf 2 6 150000000 ''svc'')"
    "\<not> manages_bot 2 5 (fund_env, AuthorizeBot 4)"
    by (simp_all add: manages_bot_def fund_env_def bot_env_def)
  then have quiet: "\<forall>tx \<in> set [(fund_env\<lparr>msg_sender := 3\<rparr>, AuthorizeBot 5),
                 (bot_env, PurchaseOnBehalf 2 6 150000000 ''svc''),
                 (fund_env, AuthorizeBot 4)]. \<not> manages_bot 2 5 tx"
    by simp
  from authorization_isolated [of 3 2 "fund_env\<lparr>msg_sender := 3\<rparr>" funded_vault "AuthorizeBot 5" 5
      6 150000000 "''svc''"
      "[(fund_env\<lparr>msg_sender := 3\<rparr>, AuthorizeBot 5),
        (bot_env, PurchaseOnBehalf 2 6 150000000 ''svc''), (fund_env, AuthorizeBot 4)]"]
    ne snd quiet before
  have "\<not> isBotAuthorized (transact funded_vault (fund_env\<lparr>msg_sender := 3\<rparr>, AuthorizeBot 5)) 2 5"
    and "\<not> isBotAuthorized (run funded_vault [(fund_env\<lparr>msg_sender := 3\<rparr>, AuthorizeBot 5),
                 (bot_env, PurchaseOnBehalf 2 6 150000000 ''svc''),
                 (fund_env, AuthorizeBot 4)]) 2 5"
    by blast+
  with ne snd own before q show ?thesis by blast
qed

text \<open>
  An instance: after a deposit, an authorization and a purchase on fund 2, fund 3 is
  still all zero.
\<close>

theorem unknown_fund_queries_witness:
  "constructor owner_env 8 7 = Inr deployed_vault \<and>
   \<not> touches 3 (fund_env, Deposit 1000000000) \<and>
   \<not> touches 3 (fund_env, AuthorizeBot 4) \<and>
   \<not> touches 3 (bot_env, PurchaseOnBehalf 2 6 150000000 ''svc'') \<and>
   getTotalPurchases (run deployed_vault [(fund_env, Deposit 1000000000),
      (fund_env, AuthorizeBot 4), (bot_env, PurchaseOnBehalf 2 6 150000000 ''svc'')]) = 1 \<and>
   getFundAccount (run deployed_vault [(fund_env, Deposit 1000000000),
      (fund_env, AuthorizeBot 4), (bot_env, PurchaseOnBehalf 2 6 150000000 ''svc'')]) 3
     = (0, 0, 0, 0, 0) \<and>
   \<not> isBotAuthorized (run deployed_vault [(fund_env, Deposit 1000000000),
      (fund_env, AuthorizeBot 4), (bot_env, PurchaseOnBehalf 2 6 150000000 ''svc'')]) 3 4 \<and>
   getFundPurchases (run deployed_vault [(fund_env, Deposit 1000000000),
      (fund_env, AuthorizeBot 4), (bot_env, PurchaseOnBehalf 2 6 150000000 ''svc'')]) 3 = []"
proof -
  let ?txs = "[(fund_env, Deposit 1000000000), (fund_env, AuthorizeBot 4),
               (bot_env, PurchaseOnBehalf 2 6 150000000 ''svc'')]"
  have q: "\<not> touches 3 (fund_env, Deposit 1000000000)"
    "\<not> touches 3 (fund_env, AuthorizeBot 4)"
    "\<not> touches 3 (bot_env, PurchaseOnBehalf 2 6 150000000 ''svc'')"
    by (simp_all add: touches_def fund_env_def bot_env_def)
  then have quiet: "\<forall>tx \<in> set ?txs. \<not> touches 3 tx"
    by simp
  have busy: "getTotalPurchases (run deployed_vault ?txs) = 1"
    by (simp add: getTotalPurchases_def call_defs deployed_vault_def fixture_defs)
  from unknown_fund_queries [OF deployed_vault_constructed quiet] busy q
    deployed_vault_constructed
  show ?thesis by simp
qed

lemma after_first_ledger:
  "purchases after_first =
     [\<lparr>fund = 2, bot = 4, recipient = 6, amount = 150000000, fee = 3000000,
       timestamp = 1700000000, metadata = ''svc''\<rparr>]"
  "fundPurchaseIndices after_first 2 = [0]"
  by (simp_all add: after_first_def limited_vault_def fixture_defs)

text \<open>
  An instance: the second purchase on fund 2 gets id 1; the record with id 0 is the
  same before and after three further transactions; id 1 is out of range while the
  count is 1.
\<close>

theorem ledger_append_only_witness:
  "purchaseOnBehalf bot_env 2 6 150000000 ''svc'' after_first = Inr (1, after_second) \<and>
   getTotalPurchases after_first = 1 \<and> getTotalPurchases after_second = 2 \<and>
   getFundPurchases after_second 2 = [0, 1] \<and>
   constructor owner_env 8 7 = Inr deployed_vault \<and>
   getTotalPurchases (run deployed_vault [(fund_env, Deposit 1000000000),
      (fund_env, AuthorizeBot 4), (bot_env, PurchaseOnBehalf 2 6 150000000 ''svc'')]) = 1 \<and>
   getPurchase after_first 0 =
     Inr \<lparr>fund = 2, bot = 4, recipient = 6, amount = 150000000, fee = 3000000,
          timestamp = 1700000000, metadata = ''svc''\<rparr> \<and>
   getPurchase (run after_first [(fund_env, Deposit 1000000000),
      (fund_env, AuthorizeBot 4), (bot_env, PurchaseOnBehalf 2 6 150000000 ''svc'')]) 0 =
     Inr \<lparr>fund = 2, bot = 4, recipient = 6, amount = 150000000, fee = 3000000,
          timestamp = 1700000000, metadata = ''svc''\<rparr> \<and>
   getTotalPurchases (run after_first [(fund_env, Deposit 1000000000),
      (fund_env, AuthorizeBot 4), (bot_env, PurchaseOnBehalf 2 6 150000000 ''svc'')]) = 2 \<and>
   unat (0 :: uint256) < getTotalPurchases after_first \<and>
   getPurchase after_first 1 = Inl InvalidPurchaseId"
proof -
  let ?txs = "[(fund_env, Deposit 1000000000), (fund_env, AuthorizeBot 4),
               (bot_env, PurchaseOnBehalf 2 6 150000000 ''svc'')]"
  let ?rec = "\<lparr>fund = 2, bot = 4, recipient = 6, amount = 150000000, fee = 3000000,
          timestamp = 1700000000, metadata = ''svc''\<rparr> :: Purchase"
  have second: "purchaseOnBehalf bot_env 2 6 150000000 ''svc'' after_first = Inr (1, after_second)"
    using purchase_permitted [OF permitted_second, of "''svc''"]
    by (simp add: after_first_account after_second_def)
  have count: "getTotalPurchases after_first = 1"
    by (simp add: getTotalPurchases_def after_first_account)
  have got: "getPurchase after_first 0 = Inr ?rec"
    by (simp add: getPurchase_eq after_first_ledger)
  have ex1: "total_over executed deployed_vault ?txs = 1"
    by (simp add: executed_def call_defs deployed_vault_def fixture_defs)
  have ex2: "total_over executed after_first ?txs = 1"
    by (simp add: executed_def call_defs after_first_def limited_vault_def fixture_defs)
  note w = ledger_append_only [of bot_env 2 6 150000000 "''svc''" after_first 1 after_second
      owner_env 8 7 deployed_vault ?txs 0 ?rec]
  note w1 = ledger_append_only [of bot_env 2 6 150000000 "''svc''" after_first 1 after_second
      owner_env 8 7 deployed_vault ?txs 1 ?rec]
  from w second have a: "getTotalPurchases after_second = 2"
    and b: "getFundPurchases after_second 2 = [0, 1]"
    by (simp_all add: getFundPurchases_def after_first_ledger)
  from w deployed_vault_constructed ex1
  have c: "getTotalPurchases (run deployed_vault ?txs) = 1"
    by simp
  from w got have d: "getPurchase (run after_first ?txs) 0 = Inr ?rec"
    by blast
  from w count ex2 have e: "getTotalPurchases (run after_first ?txs) = 2"
    by simp
  from w1 count have f: "getPurchase after_first 1 = Inl InvalidPurchaseId"
    by simp
  from second count a b deployed_vault_constructed c got d e f show ?thesis
    by simp
qed

end
